theory Spec2Isabelle
  imports Complex_Main "HOL-Library.Word"
begin

unbundle bit_operations_syntax

section \<open>JavaScript values\<close>

text \<open>
  A JavaScript string is a sequence of UTF-16 code units. String literals of the source are
  written \<open>js ''...''\<close>.
\<close>

type_synonym jschar = nat
type_synonym jsstring = "jschar list"
type_synonym byte = "8 word"

definition js :: "string \<Rightarrow> jsstring" where
  "js s = map of_char s"

text \<open>
  The values \<open>JSON.parse\<close> produces. \<open>undefined\<close> is not one of them: an expression
  that may be \<open>undefined\<close> has type \<open>json option\<close>, with \<open>None\<close> for
  \<open>undefined\<close>. An object is the list of its own properties (one entry per key). Of a
  number this program observes only whether it is zero.
\<close>

datatype json =
    JNull
  | JBool bool
  | JNum real
  | JStr jsstring
  | JArr "json list"
  | JObj "(jsstring \<times> json) list"

text \<open>\<open>if (v)\<close>\<close>

definition truthy :: "json option \<Rightarrow> bool" where
  "truthy v =
     (case v of
        None \<Rightarrow> False
      | Some JNull \<Rightarrow> False
      | Some (JBool b) \<Rightarrow> b
      | Some (JNum r) \<Rightarrow> r \<noteq> 0
      | Some (JStr s) \<Rightarrow> s \<noteq> []
      | Some (JArr xs) \<Rightarrow> True
      | Some (JObj kvs) \<Rightarrow> True)"

text \<open>
  \<open>v.key\<close> for a value \<open>v\<close> that is neither \<open>null\<close> nor \<open>undefined\<close>, and a key
  that is no built-in property of strings, numbers or arrays (every key this program reads).
\<close>

definition get_prop :: "json \<Rightarrow> jsstring \<Rightarrow> json option" where
  "get_prop v key = (case v of JObj kvs \<Rightarrow> map_of kvs key | _ \<Rightarrow> None)"

text \<open>\<open>v?.key\<close>\<close>

definition opt_prop :: "json option \<Rightarrow> jsstring \<Rightarrow> json option" where
  "opt_prop v key = (case v of None \<Rightarrow> None | Some JNull \<Rightarrow> None | Some x \<Rightarrow> get_prop x key)"

text \<open>\<open>v[0]\<close>: the first element of an array, the first code unit of a string, the
  property \<open>"0"\<close> of an object.\<close>

definition index0 :: "json \<Rightarrow> json option" where
  "index0 v =
     (case v of
        JArr xs \<Rightarrow> (case xs of [] \<Rightarrow> None | x # _ \<Rightarrow> Some x)
      | JObj kvs \<Rightarrow> map_of kvs (js ''0'')
      | JStr s \<Rightarrow> (case s of [] \<Rightarrow> None | c # _ \<Rightarrow> Some (JStr [c]))
      | _ \<Rightarrow> None)"

text \<open>\<open>v?.[0]\<close>\<close>

definition opt_index0 :: "json option \<Rightarrow> json option" where
  "opt_index0 v = (case v of None \<Rightarrow> None | Some JNull \<Rightarrow> None | Some x \<Rightarrow> index0 x)"

text \<open>\<open>a ?? b\<close> on values, and on optional fields of typed records\<close>

definition coalesce :: "json option \<Rightarrow> json option \<Rightarrow> json option" where
  "coalesce a b = (case a of None \<Rightarrow> b | Some JNull \<Rightarrow> b | Some x \<Rightarrow> Some x)"

definition coalesce_to :: "json option \<Rightarrow> json \<Rightarrow> json" where
  "coalesce_to a b = (case a of None \<Rightarrow> b | Some JNull \<Rightarrow> b | Some x \<Rightarrow> x)"

definition nullish :: "'a option \<Rightarrow> 'a option \<Rightarrow> 'a option" where
  "nullish a b = (case a of Some x \<Rightarrow> Some x | None \<Rightarrow> b)"

definition or_empty :: "'a list option \<Rightarrow> 'a list" where
  "or_empty xs = (case xs of None \<Rightarrow> [] | Some ys \<Rightarrow> ys)"

text \<open>\<open>typeof v === "string" ? v : undefined\<close>\<close>

definition string_or_undefined :: "json option \<Rightarrow> jsstring option" where
  "string_or_undefined v = (case v of Some (JStr s) \<Rightarrow> Some s | _ \<Rightarrow> None)"

text \<open>
  A \<open>Map\<close> in insertion order: \<open>set\<close> on a key that is present replaces the value where
  it stands, on a new key appends.
\<close>

primrec Map_set :: "'k \<Rightarrow> 'v \<Rightarrow> ('k \<times> 'v) list \<Rightarrow> ('k \<times> 'v) list" where
  "Map_set k v [] = [(k, v)]"
| "Map_set k v (p # ps) = (if fst p = k then (k, v) # ps else p # Map_set k v ps)"

definition Map_get :: "('k \<times> 'v) list \<Rightarrow> 'k \<Rightarrow> 'v option" where
  "Map_get m k = map_of m k"

definition Map_values :: "('k \<times> 'v) list \<Rightarrow> 'v list" where
  "Map_values m = map snd m"

definition Map_delete :: "'k \<Rightarrow> ('k \<times> 'v) list \<Rightarrow> ('k \<times> 'v) list" where
  "Map_delete k m = filter (\<lambda>p. fst p \<noteq> k) m"

section \<open>Data model\<close>

datatype ProviderType = TypeOpenai | TypeAnthropic | TypeGoogle

datatype ProviderId = Openrouter | Openai | Anthropic | Google | Mistral | Deepseek

text \<open>The table \<open>PROVIDERS\<close>\<close>

fun provider_type :: "ProviderId \<Rightarrow> ProviderType" where
  "provider_type Openrouter = TypeOpenai"
| "provider_type Openai = TypeOpenai"
| "provider_type Anthropic = TypeAnthropic"
| "provider_type Google = TypeGoogle"
| "provider_type Mistral = TypeOpenai"
| "provider_type Deepseek = TypeOpenai"

fun provider_baseUrl :: "ProviderId \<Rightarrow> jsstring" where
  "provider_baseUrl Openrouter = js ''https://openrouter.ai/api/v1''"
| "provider_baseUrl Openai = js ''https://api.openai.com/v1''"
| "provider_baseUrl Anthropic = js ''https://api.anthropic.com/v1''"
| "provider_baseUrl Google = js ''https://generativelanguage.googleapis.com/v1beta''"
| "provider_baseUrl Mistral = js ''https://api.mistral.ai/v1''"
| "provider_baseUrl Deepseek = js ''https://api.deepseek.com/v1''"

record Attachment =
  a_name :: jsstring
  a_type :: jsstring
  a_dataUrl :: jsstring

record SourceCitation =
  c_url :: jsstring
  c_title :: "jsstring option"
  c_content :: "jsstring option"

datatype Role = User | Assistant

record Message =
  m_id :: jsstring
  m_role :: Role
  m_content :: jsstring
  m_createdAt :: int
  m_modelId :: "jsstring option"
  m_providerId :: "ProviderId option"
  m_isStreaming :: "bool option"
  m_images :: "jsstring list option"
  m_attachments :: "Attachment list option"
  m_sources :: "SourceCitation list option"

text \<open>\<open>projectId\<close> may be absent, \<open>null\<close> (\<open>Some None\<close>) or a string.\<close>

record Conversation =
  cv_id :: jsstring
  cv_title :: jsstring
  cv_messages :: "Message list"
  cv_updatedAt :: int
  cv_projectId :: "jsstring option option"

section \<open>Citations\<close>

text \<open>The \<open>citation\<close> object \<open>extractSources\<close> probes in one annotation\<close>

definition citation_of :: "json \<Rightarrow> json" where
  "citation_of ann =
     coalesce_to (get_prop ann (js ''url_citation''))
       (coalesce_to (get_prop ann (js ''urlCitation'')) ann)"

definition is_object_type :: "json \<Rightarrow> bool" where
  "is_object_type v = (case v of JNull \<Rightarrow> True | JArr xs \<Rightarrow> True | JObj kvs \<Rightarrow> True | _ \<Rightarrow> False)"

definition extract_annotation :: "json \<Rightarrow> SourceCitation list" where
  "extract_annotation annotation =
     (if \<not> truthy (Some annotation) \<or> \<not> is_object_type annotation then []
      else
        let ann = annotation;
            citation = citation_of ann;
            url = (case get_prop citation (js ''url'') of
                     Some (JStr s) \<Rightarrow> s
                   | _ \<Rightarrow> (case get_prop ann (js ''url'') of Some (JStr s) \<Rightarrow> s | _ \<Rightarrow> []))
        in if url = [] then []
           else [\<lparr>c_url = url,
                  c_title = string_or_undefined (get_prop citation (js ''title'')),
                  c_content = string_or_undefined (get_prop citation (js ''content''))\<rparr>])"

definition extractSources :: "json \<Rightarrow> SourceCitation list" where
  "extractSources annotations =
     (case annotations of
        JArr xs \<Rightarrow> concat (map extract_annotation xs)
      | _ \<Rightarrow> [])"

text \<open>The first loop of \<open>mergeSources\<close>: the map seeded from the existing list\<close>

definition seed_existing :: "SourceCitation list \<Rightarrow> (jsstring \<times> SourceCitation) list" where
  "seed_existing existing = fold (\<lambda>source m. Map_set (c_url source) source m) existing []"

text \<open>The body of its second loop\<close>

definition merge_incoming ::
  "SourceCitation \<Rightarrow> (jsstring \<times> SourceCitation) list \<Rightarrow> (jsstring \<times> SourceCitation) list" where
  "merge_incoming source m =
     (case Map_get m (c_url source) of
        None \<Rightarrow> Map_set (c_url source) source m
      | Some current \<Rightarrow>
          Map_set (c_url source)
            \<lparr>c_url = c_url source,
             c_title = nullish (c_title current) (c_title source),
             c_content = nullish (c_content current) (c_content source)\<rparr> m)"

definition mergeSources :: "SourceCitation list option \<Rightarrow> SourceCitation list \<Rightarrow> SourceCitation list" where
  "mergeSources existing incoming =
     Map_values (fold merge_incoming incoming (seed_existing (or_empty existing)))"

text \<open>
  The merge rule in the words of the specification, for comparison: the current field is
  kept whenever it is non-empty, and the incoming value is adopted otherwise.
\<close>

definition spec_keep_nonempty :: "jsstring option \<Rightarrow> jsstring option \<Rightarrow> jsstring option" where
  "spec_keep_nonempty current incoming =
     (case current of
        Some s \<Rightarrow> (if s \<noteq> [] then Some s else incoming)
      | None \<Rightarrow> incoming)"

section \<open>Context builder\<close>

definition buildContext :: "Message list \<Rightarrow> jsstring \<Rightarrow> ProviderId \<Rightarrow> Message list" where
  "buildContext messages modelId providerId =
     filter (\<lambda>message.
        if m_role message = User then True
        else if m_role message = Assistant \<and> m_modelId message = Some modelId
                \<and> m_providerId message = Some providerId then True
        else False) messages"

section \<open>Strings\<close>

text \<open>The code units that \<open>trim\<close> and the regular expression \<open>\s\<close> take for white space\<close>

definition is_space :: "jschar \<Rightarrow> bool" where
  "is_space c \<longleftrightarrow>
     c = 0x09 \<or> c = 0x0A \<or> c = 0x0B \<or> c = 0x0C \<or> c = 0x0D \<or> c = 0x20 \<or> c = 0xA0 \<or>
     c = 0x1680 \<or> (0x2000 \<le> c \<and> c \<le> 0x200A) \<or> c = 0x2028 \<or> c = 0x2029 \<or>
     c = 0x202F \<or> c = 0x205F \<or> c = 0x3000 \<or> c = 0xFEFF"

definition trim :: "jsstring \<Rightarrow> jsstring" where
  "trim s = rev (dropWhile is_space (rev (dropWhile is_space s)))"

definition startsWith :: "jsstring \<Rightarrow> jsstring \<Rightarrow> bool" where
  "startsWith s p \<longleftrightarrow> take (length p) s = p"

text \<open>\<open>line.replace(/^data:\s*/, "")\<close>\<close>

definition replace_data_prefix :: "jsstring \<Rightarrow> jsstring" where
  "replace_data_prefix line =
     (if startsWith line (js ''data:'')
      then dropWhile is_space (drop (length (js ''data:'')) line)
      else line)"

definition cons_hd :: "'a \<Rightarrow> 'a list list \<Rightarrow> 'a list list" where
  "cons_hd c segs = (case segs of [] \<Rightarrow> [[c]] | seg # rest \<Rightarrow> (c # seg) # rest)"

text \<open>\<open>s.split(sep)\<close> for a separator that is not empty\<close>

function js_split :: "jsstring \<Rightarrow> jsstring \<Rightarrow> jsstring list" where
  "js_split sep [] = [[]]"
| "js_split sep (c # cs) =
     (if sep \<noteq> [] \<and> take (length sep) (c # cs) = sep
      then [] # js_split sep (drop (length sep) (c # cs))
      else cons_hd c (js_split sep cs))"
  by pat_completeness auto
termination
  by (relation "measure (\<lambda>(sep, s). length s)") (auto simp: neq_Nil_conv)

text \<open>\<open>parts.pop()\<close>: the last element (if any) and the array without it\<close>

definition pop :: "'a list \<Rightarrow> 'a option \<times> 'a list" where
  "pop xs = (if xs = [] then (None, []) else (Some (last xs), butlast xs))"

section \<open>The incremental UTF-8 decoder\<close>

text \<open>
  \<open>new TextDecoder("utf-8")\<close> with \<open>decode(value, {stream: true})\<close>: the decoder of the
  Encoding Standard, one byte at a time, its state kept between calls. A malformed sequence
  gives U+FFFD; a leading byte order mark is dropped; a code point above U+FFFF gives two
  code units.
\<close>

record utf8_state =
  code_point :: nat
  bytes_seen :: nat
  bytes_needed :: nat
  lower_boundary :: byte
  upper_boundary :: byte
  bom_seen :: bool

definition utf8_init :: utf8_state where
  "utf8_init = \<lparr>code_point = 0, bytes_seen = 0, bytes_needed = 0,
                lower_boundary = 0x80, upper_boundary = 0xBF, bom_seen = False\<rparr>"

definition utf16 :: "nat \<Rightarrow> jsstring" where
  "utf16 cp =
     (if cp < 0x10000 then [cp]
      else [0xD800 + (cp - 0x10000) div 0x400, 0xDC00 + (cp - 0x10000) mod 0x400])"

definition emit :: "utf8_state \<Rightarrow> nat \<Rightarrow> utf8_state \<times> jsstring" where
  "emit st cp =
     (if bom_seen st then (st, utf16 cp)
      else (st\<lparr>bom_seen := True\<rparr>, if cp = 0xFEFF then [] else utf16 cp))"

definition utf8_reset :: "utf8_state \<Rightarrow> utf8_state" where
  "utf8_reset st = st\<lparr>code_point := 0, bytes_seen := 0, bytes_needed := 0,
                       lower_boundary := 0x80, upper_boundary := 0xBF\<rparr>"

text \<open>A byte read while no sequence is open\<close>

definition utf8_lead :: "utf8_state \<Rightarrow> byte \<Rightarrow> utf8_state \<times> jsstring" where
  "utf8_lead st b =
     (if b \<le> 0x7F then emit st (unat b)
      else if 0xC2 \<le> b \<and> b \<le> 0xDF
        then (st\<lparr>bytes_needed := 1, code_point := unat (b AND 0x1F)\<rparr>, [])
      else if 0xE0 \<le> b \<and> b \<le> 0xEF
        then (st\<lparr>lower_boundary := (if b = 0xE0 then 0xA0 else lower_boundary st),
                  upper_boundary := (if b = 0xED then 0x9F else upper_boundary st),
                  bytes_needed := 2, code_point := unat (b AND 0xF)\<rparr>, [])
      else if 0xF0 \<le> b \<and> b \<le> 0xF4
        then (st\<lparr>lower_boundary := (if b = 0xF0 then 0x90 else lower_boundary st),
                  upper_boundary := (if b = 0xF4 then 0x8F else upper_boundary st),
                  bytes_needed := 3, code_point := unat (b AND 0x7)\<rparr>, [])
      else emit st 0xFFFD)"

definition utf8_step :: "utf8_state \<Rightarrow> byte \<Rightarrow> utf8_state \<times> jsstring" where
  "utf8_step st b =
     (if bytes_needed st = 0 then utf8_lead st b
      else if \<not> (lower_boundary st \<le> b \<and> b \<le> upper_boundary st)
        then (let (st1, out1) = emit (utf8_reset st) 0xFFFD;
                  (st2, out2) = utf8_lead st1 b
              in (st2, out1 @ out2))
      else
        (let st1 = st\<lparr>lower_boundary := 0x80, upper_boundary := 0xBF,
                       code_point := code_point st * 64 + unat (b AND 0x3F),
                       bytes_seen := bytes_seen st + 1\<rparr>
         in if bytes_seen st1 \<noteq> bytes_needed st1 then (st1, [])
            else emit (utf8_reset st1) (code_point st1)))"

text \<open>\<open>decoder.decode(value, {stream: true})\<close>\<close>

fun decode :: "utf8_state \<Rightarrow> byte list \<Rightarrow> utf8_state \<times> jsstring" where
  "decode st [] = (st, [])"
| "decode st (b # bs) =
     (let (st1, out1) = utf8_step st b;
          (st2, out2) = decode st1 bs
      in (st2, out1 @ out2))"

section \<open>Reading a response body\<close>

text \<open>What the callbacks of a stream receive, in the order of the calls\<close>

datatype Event = OnToken json | OnAnnotations json | OnImage json

text \<open>What one pass of the loop over the frames does: go on to the next frame, having
  made some calls, or return from the whole function.\<close>

datatype PartResult = Continue "Event list" | Return

definition call_if_truthy :: "(json \<Rightarrow> Event) \<Rightarrow> json option \<Rightarrow> Event list" where
  "call_if_truthy f v = (case v of None \<Rightarrow> [] | Some x \<Rightarrow> (if truthy (Some x) then [f x] else []))"

text \<open>
  \<open>for (const img of images)\<close>: an array gives its elements; a string gives strings, which
  have no url; on any other value the loop throws, inside the \<open>try\<close> and after every other
  call of the frame.
\<close>

definition image_events :: "json \<Rightarrow> Event list" where
  "image_events images =
     (case images of
        JArr xs \<Rightarrow>
          concat (map (\<lambda>img.
            call_if_truthy OnImage
              (coalesce (opt_prop (opt_prop (Some img) (js ''image_url'')) (js ''url''))
                        (opt_prop (Some img) (js ''url'')))) xs)
      | _ \<Rightarrow> [])"

text \<open>
  The body of the \<open>try\<close> of \<open>streamOpenAICompatible\<close> after a successful parse. Reading
  \<open>json.choices\<close> of \<open>null\<close> throws, before any call. The two flags say whether
  \<open>onAnnotations\<close> and \<open>onImage\<close> were given.
\<close>

definition openai_json_events :: "bool \<Rightarrow> bool \<Rightarrow> json \<Rightarrow> Event list" where
  "openai_json_events onAnnotations onImage json =
     (if json = JNull then []
      else
        let choice = opt_index0 (get_prop json (js ''choices''));
            delta = opt_prop (opt_prop choice (js ''delta'')) (js ''content'');
            annotations =
              coalesce
                (coalesce (opt_prop (opt_prop choice (js ''delta'')) (js ''annotations''))
                          (opt_prop (opt_prop choice (js ''message'')) (js ''annotations'')))
                (opt_prop (opt_index0 (opt_prop (opt_prop choice (js ''message'')) (js ''content'')))
                          (js ''annotations''));
            images =
              coalesce (opt_prop (opt_prop choice (js ''delta'')) (js ''images''))
                       (opt_prop (opt_prop choice (js ''message'')) (js ''images''))
        in call_if_truthy OnToken delta
           @ (if onAnnotations then call_if_truthy OnAnnotations annotations else [])
           @ (case images of
                None \<Rightarrow> []
              | Some imgs \<Rightarrow> (if truthy (Some imgs) \<and> onImage then image_events imgs else [])))"

definition anthropic_json_events :: "json \<Rightarrow> Event list" where
  "anthropic_json_events json =
     (if json = JNull then []
      else if get_prop json (js ''type'') = Some (JStr (js ''content_block_delta''))
        then call_if_truthy OnToken (opt_prop (get_prop json (js ''delta'')) (js ''text''))
      else [])"

definition google_json_events :: "json \<Rightarrow> Event list" where
  "google_json_events json =
     (if json = JNull then []
      else call_if_truthy OnToken
             (opt_prop
                (opt_index0
                   (opt_prop
                      (opt_prop (opt_index0 (get_prop json (js ''candidates''))) (js ''content''))
                      (js ''parts'')))
                (js ''text'')))"

text \<open>\<open>JSON.parse\<close> inside \<open>try\<close>/\<open>catch\<close>: a payload that does not parse gives no call\<close>

definition try_parse :: "(jsstring \<Rightarrow> json option) \<Rightarrow> (json \<Rightarrow> Event list) \<Rightarrow> jsstring \<Rightarrow> Event list" where
  "try_parse JSON_parse body data = (case JSON_parse data of None \<Rightarrow> [] | Some json \<Rightarrow> body json)"

text \<open>
  The payload of a frame, as the loops of \<open>streamOpenAICompatible\<close> and \<open>streamGoogle\<close>
  compute it (\<open>None\<close> where they \<open>continue\<close>), and as the loop of \<open>streamAnthropic\<close> does.
\<close>

definition data_of_part :: "jsstring \<Rightarrow> jsstring option" where
  "data_of_part part =
     (let line = trim part in
      if \<not> startsWith line (js ''data:'') then None
      else Some (trim (replace_data_prefix line)))"

definition data_of_event :: "jsstring \<Rightarrow> jsstring option" where
  "data_of_event event =
     (let lines = js_split [0x0A] event in
      case find (\<lambda>line. startsWith line (js ''data:'')) lines of
        None \<Rightarrow> None
      | Some dataLine \<Rightarrow> Some (trim (replace_data_prefix dataLine)))"

text \<open>The loop bodies over the frames, one per adapter\<close>

definition openai_part :: "(jsstring \<Rightarrow> json option) \<Rightarrow> bool \<Rightarrow> bool \<Rightarrow> jsstring \<Rightarrow> PartResult" where
  "openai_part JSON_parse onAnnotations onImage part =
     (case data_of_part part of
        None \<Rightarrow> Continue []
      | Some data \<Rightarrow>
          if data = js ''[DONE]'' then Return
          else Continue (try_parse JSON_parse (openai_json_events onAnnotations onImage) data))"

definition anthropic_part :: "(jsstring \<Rightarrow> json option) \<Rightarrow> jsstring \<Rightarrow> PartResult" where
  "anthropic_part JSON_parse event =
     (case data_of_event event of
        None \<Rightarrow> Continue []
      | Some data \<Rightarrow> Continue (try_parse JSON_parse anthropic_json_events data))"

definition google_part :: "(jsstring \<Rightarrow> json option) \<Rightarrow> jsstring \<Rightarrow> PartResult" where
  "google_part JSON_parse part =
     (case data_of_part part of
        None \<Rightarrow> Continue []
      | Some data \<Rightarrow> Continue (try_parse JSON_parse google_json_events data))"

text \<open>The calls one pass of the loop body made\<close>

definition part_events :: "PartResult \<Rightarrow> Event list" where
  "part_events r = (case r of Continue evs \<Rightarrow> evs | Return \<Rightarrow> [])"

text \<open>\<open>for (const part of parts)\<close>: the calls made, and whether the function returned\<close>

fun for_parts :: "(jsstring \<Rightarrow> PartResult) \<Rightarrow> jsstring list \<Rightarrow> Event list \<times> bool" where
  "for_parts body [] = ([], False)"
| "for_parts body (part # parts) =
     (case body part of
        Return \<Rightarrow> ([], True)
      | Continue evs \<Rightarrow> (let (evs', returned) = for_parts body parts in (evs @ evs', returned)))"

text \<open>
  \<open>while (true)\<close>: the reader delivers the chunks of the body in order and then reports
  \<open>done\<close>. The three adapters have the same loop around their own loop body.
\<close>

fun read_loop ::
  "(jsstring \<Rightarrow> PartResult) \<Rightarrow> utf8_state \<Rightarrow> jsstring \<Rightarrow> byte list list \<Rightarrow> Event list" where
  "read_loop body decoder buffer [] = []"
| "read_loop body decoder buffer (value # chunks) =
     (let (decoder', text) = decode decoder value;
          (last_part, parts) = pop (js_split [0x0A, 0x0A] (buffer @ text));
          buffer' = (case last_part of None \<Rightarrow> [] | Some s \<Rightarrow> s)
      in case for_parts body parts of
           (evs, True) \<Rightarrow> evs
         | (evs, False) \<Rightarrow> evs @ read_loop body decoder' buffer' chunks)"

definition read_openai ::
  "(jsstring \<Rightarrow> json option) \<Rightarrow> bool \<Rightarrow> bool \<Rightarrow> byte list list \<Rightarrow> Event list" where
  "read_openai JSON_parse onAnnotations onImage chunks =
     read_loop (openai_part JSON_parse onAnnotations onImage) utf8_init [] chunks"

definition read_anthropic :: "(jsstring \<Rightarrow> json option) \<Rightarrow> byte list list \<Rightarrow> Event list" where
  "read_anthropic JSON_parse chunks = read_loop (anthropic_part JSON_parse) utf8_init [] chunks"

definition read_google :: "(jsstring \<Rightarrow> json option) \<Rightarrow> byte list list \<Rightarrow> Event list" where
  "read_google JSON_parse chunks = read_loop (google_part JSON_parse) utf8_init [] chunks"

section \<open>Requests\<close>

text \<open>
  What a \<open>throw\<close> or a rejected promise carries: a \<open>DOMException\<close> with its name and
  message, another \<open>Error\<close> with its message, or a value that is no \<open>Error\<close>.
\<close>

datatype Thrown = DOMException jsstring jsstring | JsError jsstring | NonError

record Request =
  rq_url :: jsstring
  rq_method :: jsstring
  rq_headers :: "(jsstring \<times> jsstring) list"
  rq_body :: json

text \<open>A response: \<open>ok\<close>, the chunks its body delivers (\<open>None\<close> for no body), and what
  \<open>text()\<close> gives.\<close>

record Response =
  rs_ok :: bool
  rs_body :: "byte list list option"
  rs_text :: jsstring

text \<open>
  The functions of the platform the adapters call. \<open>rq_body\<close> is the value handed to
  \<open>JSON.stringify\<close>, which drops the properties that are \<open>undefined\<close>.
\<close>

record Platform =
  JSON_parse :: "jsstring \<Rightarrow> json option"
  atob :: "jsstring \<Rightarrow> Thrown + jsstring"
  fetch :: "Request \<Rightarrow> Thrown + Response"

text \<open>What a call of an adapter did: the requests sent, the callbacks called, and what it
  threw, if it did.\<close>

record Outcome =
  o_requests :: "Request list"
  o_events :: "Event list"
  o_thrown :: "Thrown option"

datatype Engine = Exa | Native

record Plugin =
  p_id :: jsstring
  p_max_results :: "real option"
  p_search_prompt :: "jsstring option"
  p_engine :: "Engine option"

definition plugin_json :: "Plugin \<Rightarrow> json" where
  "plugin_json p =
     JObj ([(js ''id'', JStr (p_id p))]
           @ (case p_max_results p of None \<Rightarrow> [] | Some n \<Rightarrow> [(js ''max_results'', JNum n)])
           @ (case p_search_prompt p of None \<Rightarrow> [] | Some s \<Rightarrow> [(js ''search_prompt'', JStr s)])
           @ (case p_engine p of
                None \<Rightarrow> []
              | Some Exa \<Rightarrow> [(js ''engine'', JStr (js ''exa''))]
              | Some Native \<Rightarrow> [(js ''engine'', JStr (js ''native''))]))"

definition role_string :: "Role \<Rightarrow> jsstring" where
  "role_string r = (case r of User \<Rightarrow> js ''user'' | Assistant \<Rightarrow> js ''assistant'')"

fun map_throwing :: "('a \<Rightarrow> Thrown + 'b) \<Rightarrow> 'a list \<Rightarrow> Thrown + 'b list" where
  "map_throwing f [] = Inr []"
| "map_throwing f (x # xs) =
     (case f x of
        Inl e \<Rightarrow> Inl e
      | Inr y \<Rightarrow> (case map_throwing f xs of Inl e \<Rightarrow> Inl e | Inr ys \<Rightarrow> Inr (y # ys)))"

text \<open>\<open>att.dataUrl.split(",")[1] ?? ""\<close>\<close>

definition base64_of_dataUrl :: "jsstring \<Rightarrow> jsstring" where
  "base64_of_dataUrl dataUrl = (case js_split (js '','') dataUrl of _ # b # _ \<Rightarrow> b | _ \<Rightarrow> [])"

definition attachment_part :: "Platform \<Rightarrow> Attachment \<Rightarrow> Thrown + json" where
  "attachment_part P att =
     (if startsWith (a_type att) (js ''image/'')
      then Inr (JObj [(js ''type'', JStr (js ''image_url'')),
                      (js ''image_url'', JObj [(js ''url'', JStr (a_dataUrl att))])])
      else case atob P (base64_of_dataUrl (a_dataUrl att)) of
             Inl e \<Rightarrow> Inl e
           | Inr decoded \<Rightarrow>
               Inr (JObj [(js ''type'', JStr (js ''text'')),
                          (js ''text'', JStr (js ''[File: '' @ a_name att @ js '']'' @ [0x0A] @ decoded))]))"

definition openai_payload_message :: "Platform \<Rightarrow> Message \<Rightarrow> Thrown + json" where
  "openai_payload_message P msg =
     (case m_attachments msg of
        Some (att # atts) \<Rightarrow>
          (case map_throwing (attachment_part P) (att # atts) of
             Inl e \<Rightarrow> Inl e
           | Inr att_parts \<Rightarrow>
               Inr (JObj [(js ''role'', JStr (role_string (m_role msg))),
                          (js ''content'',
                           JArr ((if m_content msg \<noteq> []
                                  then [JObj [(js ''type'', JStr (js ''text'')),
                                              (js ''text'', JStr (m_content msg))]]
                                  else []) @ att_parts))]))
      | _ \<Rightarrow> Inr (JObj [(js ''role'', JStr (role_string (m_role msg))),
                       (js ''content'', JStr (m_content msg))]))"

definition truthy_string :: "jsstring option \<Rightarrow> bool" where
  "truthy_string s = (case s of None \<Rightarrow> False | Some x \<Rightarrow> x \<noteq> [])"

text \<open>
  The part the three adapters share after \<open>fetch\<close>: a rejected fetch throws (so does a
  fetch whose signal is aborted); a response that is not \<open>ok\<close> or has no body throws its
  text; otherwise the body is read. The body is a finite list of chunks delivered to the end:
  a read that fails midway is not part of this model.
\<close>

definition after_fetch :: "Platform \<Rightarrow> Request \<Rightarrow> (byte list list \<Rightarrow> Event list) \<Rightarrow> Outcome" where
  "after_fetch P request reader =
     (case fetch P request of
        Inl e \<Rightarrow> \<lparr>o_requests = [request], o_events = [], o_thrown = Some e\<rparr>
      | Inr response \<Rightarrow>
          (case (if rs_ok response then rs_body response else None) of
             None \<Rightarrow>
               \<lparr>o_requests = [request], o_events = [],
                o_thrown = Some (JsError (if rs_text response \<noteq> [] then rs_text response
                                          else js ''Request failed''))\<rparr>
           | Some chunks \<Rightarrow>
               \<lparr>o_requests = [request], o_events = reader chunks, o_thrown = None\<rparr>))"

record OpenAIOptions =
  oa_apiKey :: jsstring
  oa_baseUrl :: jsstring
  oa_model :: jsstring
  oa_messages :: "Message list"
  oa_systemPrompt :: "jsstring option"
  oa_onImage :: bool
  oa_onAnnotations :: bool
  oa_supportsImages :: "bool option"
  oa_plugins :: "Plugin list option"

definition streamOpenAICompatible :: "Platform \<Rightarrow> OpenAIOptions \<Rightarrow> Outcome" where
  "streamOpenAICompatible P options =
     (case map_throwing (openai_payload_message P) (oa_messages options) of
        Inl e \<Rightarrow> \<lparr>o_requests = [], o_events = [], o_thrown = Some e\<rparr>
      | Inr msgs \<Rightarrow>
          let payloadMessages =
                (if truthy_string (oa_systemPrompt options)
                 then [JObj [(js ''role'', JStr (js ''system'')),
                             (js ''content'', JStr (or_empty (oa_systemPrompt options)))]]
                 else []) @ msgs;
              body =
                JObj ([(js ''model'', JStr (oa_model options)),
                       (js ''messages'', JArr payloadMessages),
                       (js ''stream'', JBool True)]
                      @ (if oa_supportsImages options = Some True
                         then [(js ''modalities'', JArr [JStr (js ''text''), JStr (js ''image'')])]
                         else [])
                      @ (if or_empty (oa_plugins options) \<noteq> []
                         then [(js ''plugins'', JArr (map plugin_json (or_empty (oa_plugins options))))]
                         else []));
              request =
                \<lparr>rq_url = oa_baseUrl options @ js ''/chat/completions'',
                 rq_method = js ''POST'',
                 rq_headers = [(js ''Content-Type'', js ''application/json''),
                               (js ''Authorization'', js ''Bearer '' @ oa_apiKey options)],
                 rq_body = body\<rparr>
          in after_fetch P request
               (read_openai (JSON_parse P) (oa_onAnnotations options) (oa_onImage options)))"

record AnthropicOptions =
  an_apiKey :: jsstring
  an_model :: jsstring
  an_messages :: "Message list"
  an_systemPrompt :: "jsstring option"

definition streamAnthropic :: "Platform \<Rightarrow> AnthropicOptions \<Rightarrow> Outcome" where
  "streamAnthropic P options =
     (let request =
            \<lparr>rq_url = provider_baseUrl Anthropic @ js ''/messages'',
             rq_method = js ''POST'',
             rq_headers = [(js ''Content-Type'', js ''application/json''),
                           (js ''x-api-key'', an_apiKey options),
                           (js ''anthropic-version'', js ''2023-06-01'')],
             rq_body =
               JObj ([(js ''model'', JStr (an_model options)),
                      (js ''max_tokens'', JNum 1024)]
                     @ (if truthy_string (an_systemPrompt options)
                        then [(js ''system'', JStr (or_empty (an_systemPrompt options)))]
                        else [])
                     @ [(js ''messages'',
                         JArr (map (\<lambda>msg. JObj [(js ''role'', JStr (role_string (m_role msg))),
                                                (js ''content'', JStr (m_content msg))])
                                   (an_messages options))),
                        (js ''stream'', JBool True)])\<rparr>
      in after_fetch P request (read_anthropic (JSON_parse P)))"

record GoogleOptions =
  g_apiKey :: jsstring
  g_model :: jsstring
  g_messages :: "Message list"
  g_systemPrompt :: "jsstring option"

definition streamGoogle :: "Platform \<Rightarrow> GoogleOptions \<Rightarrow> Outcome" where
  "streamGoogle P options =
     (let contents =
            map (\<lambda>msg. JObj [(js ''role'', JStr (if m_role msg = Assistant then js ''model''
                                                  else js ''user'')),
                              (js ''parts'', JArr [JObj [(js ''text'', JStr (m_content msg))]])])
                (g_messages options);
          request =
            \<lparr>rq_url = provider_baseUrl Google @ js ''/models/'' @ g_model options
                       @ js '':streamGenerateContent?alt=sse&key='' @ g_apiKey options,
             rq_method = js ''POST'',
             rq_headers = [(js ''Content-Type'', js ''application/json'')],
             rq_body =
               JObj ([(js ''contents'', JArr contents)]
                     @ (if truthy_string (g_systemPrompt options)
                        then [(js ''systemInstruction'',
                               JObj [(js ''parts'',
                                      JArr [JObj [(js ''text'',
                                                   JStr (or_empty (g_systemPrompt options)))]])])]
                        else []))\<rparr>
      in after_fetch P request (read_google (JSON_parse P)))"

record ProviderOptions =
  sp_providerId :: ProviderId
  sp_apiKey :: jsstring
  sp_model :: jsstring
  sp_messages :: "Message list"
  sp_systemPrompt :: "jsstring option"
  sp_onImage :: bool
  sp_onAnnotations :: bool
  sp_supportsImages :: "bool option"
  sp_plugins :: "Plugin list option"

definition streamProviderResponse :: "Platform \<Rightarrow> ProviderOptions \<Rightarrow> Outcome" where
  "streamProviderResponse P options =
     (if sp_apiKey options = []
      then \<lparr>o_requests = [], o_events = [],
            o_thrown = Some (JsError (js ''Missing API key for provider.''))\<rparr>
      else
        case provider_type (sp_providerId options) of
          TypeOpenai \<Rightarrow>
            streamOpenAICompatible P
              \<lparr>oa_apiKey = sp_apiKey options,
               oa_baseUrl = provider_baseUrl (sp_providerId options),
               oa_model = sp_model options,
               oa_messages = sp_messages options,
               oa_systemPrompt = sp_systemPrompt options,
               oa_onImage = sp_onImage options,
               oa_onAnnotations = sp_onAnnotations options,
               oa_supportsImages = sp_supportsImages options,
               oa_plugins = sp_plugins options\<rparr>
        | TypeAnthropic \<Rightarrow>
            streamAnthropic P
              \<lparr>an_apiKey = sp_apiKey options,
               an_model = sp_model options,
               an_messages = sp_messages options,
               an_systemPrompt = sp_systemPrompt options\<rparr>
        | TypeGoogle \<Rightarrow>
            streamGoogle P
              \<lparr>g_apiKey = sp_apiKey options,
               g_model = sp_model options,
               g_messages = sp_messages options,
               g_systemPrompt = sp_systemPrompt options\<rparr>)"

section \<open>Conversation state\<close>

text \<open>
  The state of the component that the stop operation and the tasks touch: the conversations,
  the id of the active one, the map \<open>abortControllersRef.current\<close> from message ids to
  abort controllers, and the controllers whose \<open>abort()\<close> has been called.
\<close>

record AppState =
  conversations :: "Conversation list"
  activeConversationId :: "jsstring option"
  abortControllers :: "(jsstring \<times> nat) list"
  aborted :: "nat set"

definition activeConversation :: "AppState \<Rightarrow> Conversation option" where
  "activeConversation s =
     find (\<lambda>conversation. Some (cv_id conversation) = activeConversationId s) (conversations s)"

definition updateConversation ::
  "jsstring \<Rightarrow> (Conversation \<Rightarrow> Conversation) \<Rightarrow> AppState \<Rightarrow> AppState" where
  "updateConversation conversationId updater s =
     s\<lparr>conversations :=
         map (\<lambda>conversation. if cv_id conversation = conversationId then updater conversation
                              else conversation)
             (conversations s)\<rparr>"

text \<open>\<open>now\<close> is the value of \<open>Date.now()\<close>.\<close>

definition stopStreaming :: "int \<Rightarrow> AppState \<Rightarrow> AppState" where
  "stopStreaming now s =
     (let s1 = s\<lparr>aborted := aborted s \<union> snd ` set (abortControllers s)\<rparr>;
          s2 = s1\<lparr>abortControllers := []\<rparr>
      in case activeConversation s of
           None \<Rightarrow> s2
         | Some active \<Rightarrow>
             updateConversation (cv_id active)
               (\<lambda>conversation.
                  conversation\<lparr>cv_messages :=
                                 map (\<lambda>message.
                                        if m_isStreaming message = Some True
                                        then message\<lparr>m_isStreaming := Some False\<rparr>
                                        else message)
                                     (cv_messages conversation),
                               cv_updatedAt := now\<rparr>)
               s2)"

text \<open>
  The \<open>catch\<close> of a task in \<open>sendMessage\<close>, for the task that owns the message
  \<open>assistantId\<close> of the conversation \<open>conversationId\<close>.
\<close>

definition is_abort_error :: "Thrown \<Rightarrow> bool" where
  "is_abort_error error = (case error of DOMException name msg \<Rightarrow> name = js ''AbortError'' | _ \<Rightarrow> False)"

definition error_message :: "Thrown \<Rightarrow> jsstring" where
  "error_message error =
     (case error of
        DOMException name msg \<Rightarrow> msg
      | JsError msg \<Rightarrow> msg
      | NonError \<Rightarrow> js ''Unknown error'')"

definition task_catch :: "Thrown \<Rightarrow> jsstring \<Rightarrow> jsstring \<Rightarrow> int \<Rightarrow> AppState \<Rightarrow> AppState" where
  "task_catch error conversationId assistantId now s =
     (let s1 = s\<lparr>abortControllers := Map_delete assistantId (abortControllers s)\<rparr>
      in if is_abort_error error
         then updateConversation conversationId
                (\<lambda>conversation.
                   conversation\<lparr>cv_messages :=
                                  map (\<lambda>msg. if m_id msg = assistantId
                                              then msg\<lparr>m_isStreaming := Some False\<rparr> else msg)
                                      (cv_messages conversation),
                                cv_updatedAt := now\<rparr>)
                s1
         else updateConversation conversationId
                (\<lambda>conversation.
                   conversation\<lparr>cv_messages :=
                                  map (\<lambda>msg. if m_id msg = assistantId
                                              then msg\<lparr>m_content := js ''Error: '' @ error_message error,
                                                       m_isStreaming := Some False\<rparr>
                                              else msg)
                                      (cv_messages conversation),
                                cv_updatedAt := now\<rparr>)
                s1)"

section \<open>Notions used in the proofs\<close>

text \<open>A citation map is keyed when its keys are distinct and every entry stands under its
  own url.\<close>

definition keyed :: "(jsstring \<times> SourceCitation) list \<Rightarrow> bool" where
  "keyed m \<longleftrightarrow> distinct (map fst m) \<and> (\<forall>p \<in> set m. c_url (snd p) = fst p)"

text \<open>A citation is absorbed by a map when merging it again changes nothing: its url is
  present and every field the entry lacks, the citation lacks too.\<close>

definition absorbed :: "SourceCitation \<Rightarrow> (jsstring \<times> SourceCitation) list \<Rightarrow> bool" where
  "absorbed source m \<longleftrightarrow>
     (\<exists>cur. map_of m (c_url source) = Some cur \<and>
        (c_title cur = None \<longrightarrow> c_title source = None) \<and>
        (c_content cur = None \<longrightarrow> c_content source = None))"

text \<open>The keys of a map after \<open>set\<close>\<close>

definition add_key :: "'k \<Rightarrow> 'k list \<Rightarrow> 'k list" where
  "add_key k ks = (if k \<in> set ks then ks else ks @ [k])"

text \<open>The frames of a complete body: its decoded text, split at the blank lines, without
  the last segment\<close>

definition stream_frames :: "byte list \<Rightarrow> jsstring list" where
  "stream_frames bytes = butlast (js_split [0x0A, 0x0A] (snd (decode utf8_init bytes)))"

text \<open>A stand-in for \<open>JSON.parse\<close> in the examples: it accepts the payloads that begin with
  \<open>"\<close> and gives a delta with the rest of the payload as its content.\<close>

definition example_parse :: "jsstring \<Rightarrow> json option" where
  "example_parse s =
     (case s of
        [] \<Rightarrow> None
      | c # cs \<Rightarrow>
          (if c = 0x22
           then Some (JObj [(js ''choices'',
                             JArr [JObj [(js ''delta'', JObj [(js ''content'', JStr cs)])]])])
           else None))"

text \<open>Values for the examples: a platform without network, a message and a state\<close>

definition example_platform :: Platform where
  "example_platform =
     \<lparr>JSON_parse = example_parse,
      atob = (\<lambda>s. Inr s),
      fetch = (\<lambda>request. Inl (JsError (js ''Failed to fetch'')))\<rparr>"

definition example_options :: "ProviderId \<Rightarrow> jsstring \<Rightarrow> ProviderOptions" where
  "example_options providerId apiKey =
     \<lparr>sp_providerId = providerId, sp_apiKey = apiKey, sp_model = js ''m'', sp_messages = [],
      sp_systemPrompt = None, sp_onImage = True, sp_onAnnotations = True,
      sp_supportsImages = None, sp_plugins = None\<rparr>"

definition example_message :: "jsstring \<Rightarrow> jsstring \<Rightarrow> bool option \<Rightarrow> Message" where
  "example_message ident content streaming =
     \<lparr>m_id = ident, m_role = Assistant, m_content = content, m_createdAt = 0,
      m_modelId = Some (js ''A''), m_providerId = Some Openrouter, m_isStreaming = streaming,
      m_images = None, m_attachments = None, m_sources = None\<rparr>"

definition example_state :: AppState where
  "example_state =
     \<lparr>conversations =
        [\<lparr>cv_id = js ''c1'', cv_title = js ''t'',
          cv_messages = [example_message (js ''m1'') (js ''par'') (Some True),
                         example_message (js ''m2'') (js ''done'') (Some False)],
          cv_updatedAt = 0, cv_projectId = None\<rparr>,
         \<lparr>cv_id = js ''c2'', cv_title = js ''u'',
          cv_messages = [example_message (js ''m3'') (js ''x'') (Some True)],
          cv_updatedAt = 0, cv_projectId = None\<rparr>],
      activeConversationId = Some (js ''c1''),
      abortControllers = [(js ''m1'', 7)],
      aborted = {}\<rparr>"

section \<open>Citation merge\<close>

lemma map_of_Map_set: "map_of (Map_set k v m) = (map_of m)(k \<mapsto> v)"
  by (induction m) auto

lemma keys_Map_set:
  "map fst (Map_set k v m) = (if k \<in> set (map fst m) then map fst m else map fst m @ [k])"
  by (induction m) auto

lemma Map_set_triv: "map_of m k = Some v \<Longrightarrow> Map_set k v m = m"
  by (induction m) (auto split: if_splits)

lemma Map_set_fresh: "k \<notin> fst ` set m \<Longrightarrow> Map_set k v m = m @ [(k, v)]"
  by (induction m) auto

lemma set_Map_set_subset: "set (Map_set k v m) \<subseteq> insert (k, v) (set m)"
  by (induction m) auto

lemma keyed_Nil: "keyed []"
  by (simp add: keyed_def)

lemma keyed_Map_set: "keyed m \<Longrightarrow> c_url v = k \<Longrightarrow> keyed (Map_set k v m)"
  using set_Map_set_subset[of k v m] by (auto simp: keyed_def keys_Map_set)

lemma keyed_map_of: "keyed m \<Longrightarrow> map_of m k = Some v \<Longrightarrow> c_url v = k"
  by (auto simp: keyed_def dest!: map_of_SomeD)

lemma keyed_merge_incoming: "keyed m \<Longrightarrow> keyed (merge_incoming source m)"
  by (auto simp: merge_incoming_def Map_get_def intro!: keyed_Map_set split: option.splits)

lemma keyed_fold_seed:
  "keyed m \<Longrightarrow> keyed (fold (\<lambda>source m. Map_set (c_url source) source m) ex m)"
  by (induction ex arbitrary: m) (auto intro: keyed_Map_set)

lemma keyed_seed_existing: "keyed (seed_existing ex)"
  by (simp add: seed_existing_def keyed_fold_seed keyed_Nil)

lemma keyed_fold_merge: "keyed m \<Longrightarrow> keyed (fold merge_incoming inc m)"
  by (induction inc arbitrary: m) (auto intro: keyed_merge_incoming)

lemma keyed_urls: "keyed m \<Longrightarrow> map c_url (map snd m) = map fst m"
  by (induction m) (auto simp: keyed_def)

lemma reseed_aux:
  "keyed m \<Longrightarrow> fst ` set acc \<inter> fst ` set m = {} \<Longrightarrow>
   fold (\<lambda>source m. Map_set (c_url source) source m) (map snd m) acc = acc @ m"
proof (induction m arbitrary: acc)
  case Nil
  then show ?case by simp
next
  case (Cons p m)
  have k: "c_url (snd p) = fst p" using Cons.prems(1) by (simp add: keyed_def)
  have fresh: "fst p \<notin> fst ` set acc" using Cons.prems(2) by auto
  have km: "keyed m" using Cons.prems(1) by (simp add: keyed_def)
  have disj: "fst ` set (acc @ [p]) \<inter> fst ` set m = {}"
    using Cons.prems by (auto simp: keyed_def)
  have "Map_set (c_url (snd p)) (snd p) acc = acc @ [p]"
    using Map_set_fresh[OF fresh, of "snd p"] k by simp
  then show ?case using Cons.IH[OF km disj] by simp
qed

lemma reseed: "keyed m \<Longrightarrow> seed_existing (map snd m) = m"
  using reseed_aux[of m "[]"] by (simp add: seed_existing_def)

lemma absorbed_fixed: "keyed m \<Longrightarrow> absorbed source m \<Longrightarrow> merge_incoming source m = m"
proof -
  assume km: "keyed m" and ab: "absorbed source m"
  then obtain cur where cur: "map_of m (c_url source) = Some cur"
    and t: "c_title cur = None \<longrightarrow> c_title source = None"
    and c: "c_content cur = None \<longrightarrow> c_content source = None"
    by (auto simp: absorbed_def)
  have u: "c_url cur = c_url source" using keyed_map_of[OF km cur] .
  have "\<lparr>c_url = c_url source, c_title = nullish (c_title cur) (c_title source),
         c_content = nullish (c_content cur) (c_content source)\<rparr> = cur"
    using t c u by (cases cur) (auto simp: nullish_def split: option.splits)
  then show ?thesis using cur by (simp add: merge_incoming_def Map_get_def Map_set_triv)
qed

lemma absorbed_self: "absorbed source (merge_incoming source m)"
  by (auto simp: absorbed_def merge_incoming_def Map_get_def map_of_Map_set nullish_def
      split: option.splits)

lemma absorbed_step: "absorbed s m \<Longrightarrow> absorbed s (merge_incoming source m)"
  by (auto simp: absorbed_def merge_incoming_def Map_get_def map_of_Map_set nullish_def
      split: option.splits)

lemma absorbed_fold: "absorbed s m \<Longrightarrow> absorbed s (fold merge_incoming inc m)"
  by (induction inc arbitrary: m) (auto intro: absorbed_step)

lemma absorbed_all: "s \<in> set inc \<Longrightarrow> absorbed s (fold merge_incoming inc m)"
proof (induction inc arbitrary: m)
  case Nil
  then show ?case by simp
next
  case (Cons a inc)
  show ?case
  proof (cases "s = a")
    case True
    then show ?thesis using absorbed_fold[OF absorbed_self] by simp
  next
    case False
    then show ?thesis using Cons by simp
  qed
qed

lemma fold_absorbed_fixed:
  "keyed m \<Longrightarrow> \<forall>s \<in> set inc. absorbed s m \<Longrightarrow> fold merge_incoming inc m = m"
  by (induction inc) (auto simp: absorbed_fixed)

text \<open>
  Claim C1. Merging is idempotent: merging the incoming list once more into the result of a
  merge gives that result again, for every existing list (also an absent one) and every
  incoming list.
\<close>

theorem mergeSources_idempotent:
  "mergeSources (Some (mergeSources S L)) L = mergeSources S L"
proof -
  define m where "m = fold merge_incoming L (seed_existing (or_empty S))"
  have km: "keyed m" unfolding m_def by (rule keyed_fold_merge[OF keyed_seed_existing])
  have ab: "\<forall>s \<in> set L. absorbed s m" unfolding m_def by (simp add: absorbed_all)
  have "mergeSources (Some (mergeSources S L)) L = map snd (fold merge_incoming L (seed_existing (map snd m)))"
    by (simp add: mergeSources_def Map_values_def m_def or_empty_def)
  also have "\<dots> = map snd (fold merge_incoming L m)" by (simp add: reseed[OF km])
  also have "\<dots> = map snd m" by (simp add: fold_absorbed_fixed[OF km ab])
  finally show ?thesis by (simp add: mergeSources_def Map_values_def m_def)
qed


lemma remdups_drop_seen: "y \<in> set zs \<Longrightarrow> remdups (xs @ y # zs) = remdups (xs @ zs)"
  by (induction xs) auto

lemma fold_add_key:
  "distinct acc \<Longrightarrow> fold add_key ys acc = rev (remdups (rev (acc @ ys)))"
proof (induction ys arbitrary: acc)
  case Nil
  then show ?case by (simp add: distinct_remdups_id)
next
  case (Cons y ys)
  show ?case
  proof (cases "y \<in> set acc")
    case True
    then have "remdups (rev ys @ y # rev acc) = remdups (rev ys @ rev acc)"
      by (simp add: remdups_drop_seen)
    then show ?thesis using True Cons by (simp add: add_key_def)
  next
    case False
    then have "distinct (acc @ [y])" using Cons.prems by simp
    from Cons.IH[OF this] show ?thesis using False by (simp add: add_key_def)
  qed
qed

lemma keys_fold_seed:
  "map fst (fold (\<lambda>source m. Map_set (c_url source) source m) ex m) = fold add_key (map c_url ex) (map fst m)"
  by (induction ex arbitrary: m) (simp_all add: keys_Map_set add_key_def)

lemma keys_merge_incoming: "map fst (merge_incoming source m) = add_key (c_url source) (map fst m)"
  by (simp add: merge_incoming_def Map_get_def keys_Map_set add_key_def split: option.splits)

lemma keys_fold_merge:
  "map fst (fold merge_incoming inc m) = fold add_key (map c_url inc) (map fst m)"
  by (induction inc arbitrary: m) (simp_all add: keys_merge_incoming)


lemma remdups_split: "remdups (as @ bs) = remdups (filter (\<lambda>x. x \<notin> set bs) as) @ remdups bs"
  by (induction as) auto

lemma first_seen_append:
  "distinct xs \<Longrightarrow> rev (remdups (rev (xs @ ys))) = xs @ rev (remdups (rev (filter (\<lambda>u. u \<notin> set xs) ys)))"
  using remdups_split[of "rev ys" "rev xs"] by (simp add: distinct_remdups_id rev_filter)

lemma mergeSources_alt: "mergeSources S L = map snd (fold merge_incoming L (seed_existing (or_empty S)))"
  by (simp add: mergeSources_def Map_values_def)

lemma urls_mergeSources:
  "map c_url (mergeSources S L) = rev (remdups (rev (map c_url (or_empty S) @ map c_url L)))"
proof -
  let ?m = "fold merge_incoming L (seed_existing (or_empty S))"
  have k: "keyed ?m" by (rule keyed_fold_merge[OF keyed_seed_existing])
  have d: "distinct (fold add_key (map c_url (or_empty S)) [])"
    using keyed_seed_existing[of "or_empty S"] keys_fold_seed[of "or_empty S" "[]"]
    by (simp add: keyed_def seed_existing_def)
  have "map c_url (mergeSources S L) = map fst ?m"
    unfolding mergeSources_alt by (rule keyed_urls[OF k])
  also have "\<dots> = fold add_key (map c_url L) (fold add_key (map c_url (or_empty S)) [])"
    by (simp add: keys_fold_merge seed_existing_def keys_fold_seed)
  also have "\<dots> = fold add_key (map c_url (or_empty S) @ map c_url L) []"
    by simp
  also have "\<dots> = rev (remdups (rev (map c_url (or_empty S) @ map c_url L)))"
    using fold_add_key[of "[]" "map c_url (or_empty S) @ map c_url L"] by (simp del: fold_append)
  finally show ?thesis .
qed

text \<open>
  Claim C3. The result of a merge has at most one citation per url. Its urls are the urls of
  the existing list followed by those of the incoming list, each at its first occurrence.
  When the existing list has one citation per url, as every list a merge returned has, the
  result begins with the urls of the existing list, each at the index it had, and the urls
  that are new follow in the order in which the incoming list first names them.
\<close>

theorem mergeSources_one_per_url_in_order:
  "distinct (map c_url (mergeSources S L)) \<and>
   map c_url (mergeSources S L) = rev (remdups (rev (map c_url (or_empty S) @ map c_url L))) \<and>
   (distinct (map c_url (or_empty S)) \<longrightarrow>
      map c_url (mergeSources S L) =
        map c_url (or_empty S) @
        rev (remdups (rev (filter (\<lambda>u. u \<notin> set (map c_url (or_empty S))) (map c_url L)))))"
  using first_seen_append[of "map c_url (or_empty S)" "map c_url L"]
  by (simp add: urls_mergeSources)

theorem mergeSources_one_per_url_in_order_witness:
  "distinct (map c_url (or_empty (Some [\<lparr>c_url = js ''a'', c_title = None, c_content = None\<rparr>,
                                        \<lparr>c_url = js ''b'', c_title = None, c_content = None\<rparr>])))
   \<and> map c_url (mergeSources (Some [\<lparr>c_url = js ''a'', c_title = None, c_content = None\<rparr>,
                                     \<lparr>c_url = js ''b'', c_title = None, c_content = None\<rparr>])
                   [\<lparr>c_url = js ''c'', c_title = None, c_content = None\<rparr>,
                    \<lparr>c_url = js ''b'', c_title = None, c_content = None\<rparr>,
                    \<lparr>c_url = js ''d'', c_title = None, c_content = None\<rparr>,
                    \<lparr>c_url = js ''c'', c_title = None, c_content = None\<rparr>])
     = [js ''a'', js ''b'', js ''c'', js ''d'']"
  using mergeSources_one_per_url_in_order
    [of "Some [\<lparr>c_url = js ''a'', c_title = None, c_content = None\<rparr>,
               \<lparr>c_url = js ''b'', c_title = None, c_content = None\<rparr>]"
        "[\<lparr>c_url = js ''c'', c_title = None, c_content = None\<rparr>,
          \<lparr>c_url = js ''b'', c_title = None, c_content = None\<rparr>,
          \<lparr>c_url = js ''d'', c_title = None, c_content = None\<rparr>,
          \<lparr>c_url = js ''c'', c_title = None, c_content = None\<rparr>]"]
  by (simp add: or_empty_def js_def)

lemma keyed_find: "keyed m \<Longrightarrow> find (\<lambda>c. c_url c = u) (map snd m) = map_of m u"
  by (induction m) (auto simp: keyed_def)

lemma find_mergeSources:
  "find (\<lambda>c. c_url c = u) (mergeSources S L) = map_of (fold merge_incoming L (seed_existing (or_empty S))) u"
  unfolding mergeSources_alt by (rule keyed_find[OF keyed_fold_merge[OF keyed_seed_existing]])

lemma title_kept_step:
  "map_of m u = Some r \<Longrightarrow> c_title r = Some t \<Longrightarrow>
   \<exists>r'. map_of (merge_incoming s m) u = Some r' \<and> c_title r' = Some t"
  by (auto simp: merge_incoming_def Map_get_def map_of_Map_set nullish_def split: option.splits)

lemma title_kept_fold:
  "map_of m u = Some r \<Longrightarrow> c_title r = Some t \<Longrightarrow>
   \<exists>r'. map_of (fold merge_incoming inc m) u = Some r' \<and> c_title r' = Some t"
proof (induction inc arbitrary: m r)
  case Nil
  then show ?case by simp
next
  case (Cons s inc)
  from title_kept_step[OF Cons.prems, of s] obtain r1
    where "map_of (merge_incoming s m) u = Some r1" "c_title r1 = Some t" by blast
  from Cons.IH[OF this] show ?case by simp
qed

lemma mergeSources_distinct_existing:
  "distinct (map c_url ex) \<Longrightarrow> mergeSources (Some ex) [] = ex"
proof -
  assume d: "distinct (map c_url ex)"
  have k: "keyed (map (\<lambda>c. (c_url c, c)) ex)" using d by (simp add: keyed_def comp_def)
  have "seed_existing (map snd (map (\<lambda>c. (c_url c, c)) ex)) = map (\<lambda>c. (c_url c, c)) ex"
    by (rule reseed[OF k])
  then show ?thesis by (simp add: mergeSources_alt or_empty_def comp_def)
qed

text \<open>
  Claim C2, as amended. When the url of an incoming citation is present in the map (seeded
  from the existing list and updated by the citations merged before it), the entry keeps its
  title and its content whenever they are present, also when they are the empty string, and
  takes the incoming value only for a field that is absent. Hence a title that is present is
  never changed by the citations merged later, whatever their values. Before any incoming
  citation the map holds the existing list itself, when that list has one citation per url.
\<close>

theorem mergeSources_present_fields_kept:
  "(find (\<lambda>c. c_url c = c_url source) (mergeSources S L) = Some current \<longrightarrow>
      find (\<lambda>c. c_url c = c_url source) (mergeSources S (L @ [source])) =
        Some \<lparr>c_url = c_url source,
              c_title = (case c_title current of Some t \<Rightarrow> Some t | None \<Rightarrow> c_title source),
              c_content = (case c_content current of Some x \<Rightarrow> Some x | None \<Rightarrow> c_content source)\<rparr>) \<and>
   (find (\<lambda>c. c_url c = u) (mergeSources S L) = Some r \<and> c_title r = Some t \<longrightarrow>
      (\<exists>r'. find (\<lambda>c. c_url c = u) (mergeSources S (L @ L')) = Some r' \<and> c_title r' = Some t)) \<and>
   (distinct (map c_url ex) \<longrightarrow> mergeSources (Some ex) [] = ex)"
proof (intro conjI impI)
  assume "find (\<lambda>c. c_url c = c_url source) (mergeSources S L) = Some current"
  then have "map_of (fold merge_incoming L (seed_existing (or_empty S))) (c_url source) = Some current"
    by (simp add: find_mergeSources)
  then show "find (\<lambda>c. c_url c = c_url source) (mergeSources S (L @ [source])) =
        Some \<lparr>c_url = c_url source,
              c_title = (case c_title current of Some t \<Rightarrow> Some t | None \<Rightarrow> c_title source),
              c_content = (case c_content current of Some x \<Rightarrow> Some x | None \<Rightarrow> c_content source)\<rparr>"
    by (simp add: find_mergeSources merge_incoming_def Map_get_def map_of_Map_set nullish_def)
next
  assume "find (\<lambda>c. c_url c = u) (mergeSources S L) = Some r \<and> c_title r = Some t"
  then have "map_of (fold merge_incoming L (seed_existing (or_empty S))) u = Some r" "c_title r = Some t"
    by (simp_all add: find_mergeSources)
  from title_kept_fold[OF this, of L']
  show "\<exists>r'. find (\<lambda>c. c_url c = u) (mergeSources S (L @ L')) = Some r' \<and> c_title r' = Some t"
    by (simp add: find_mergeSources)
next
  assume "distinct (map c_url ex)"
  then show "mergeSources (Some ex) [] = ex" by (rule mergeSources_distinct_existing)
qed


theorem mergeSources_present_fields_kept_witness:
  "find (\<lambda>c. c_url c = js ''u'')
     (mergeSources (Some [\<lparr>c_url = js ''u'', c_title = Some (js ''A''), c_content = None\<rparr>])
        ([] @ [\<lparr>c_url = js ''u'', c_title = Some (js ''B''), c_content = Some (js ''C'')\<rparr>]))
   = Some \<lparr>c_url = js ''u'', c_title = Some (js ''A''), c_content = Some (js ''C'')\<rparr>
   \<and> (\<exists>r'. find (\<lambda>c. c_url c = js ''u'')
          (mergeSources (Some [\<lparr>c_url = js ''u'', c_title = Some (js ''A''), c_content = None\<rparr>])
             ([] @ [\<lparr>c_url = js ''u'', c_title = Some (js ''B''), c_content = Some (js ''C'')\<rparr>]))
          = Some r' \<and> c_title r' = Some (js ''A''))"
  using mergeSources_present_fields_kept
    [of "\<lparr>c_url = js ''u'', c_title = Some (js ''B''), c_content = Some (js ''C'')\<rparr>"
        "Some [\<lparr>c_url = js ''u'', c_title = Some (js ''A''), c_content = None\<rparr>]" "[]"
        "\<lparr>c_url = js ''u'', c_title = Some (js ''A''), c_content = None\<rparr>"
        "js ''u''"
        "\<lparr>c_url = js ''u'', c_title = Some (js ''A''), c_content = None\<rparr>"
        "js ''A''"
        "[\<lparr>c_url = js ''u'', c_title = Some (js ''B''), c_content = Some (js ''C'')\<rparr>]"
        "[\<lparr>c_url = js ''u'', c_title = Some (js ''A''), c_content = None\<rparr>]"]
  by (simp add: mergeSources_def seed_existing_def or_empty_def Map_values_def js_def)

text \<open>
  Claim C2 as stated fails where the current title is the empty string: the merge keeps
  it, where the rule of the specification adopts the incoming title.
\<close>

theorem mergeSources_empty_title_counterexample:
  "mergeSources (Some [\<lparr>c_url = js ''u'', c_title = Some [], c_content = None\<rparr>])
     [\<lparr>c_url = js ''u'', c_title = Some (js ''T''), c_content = None\<rparr>]
   = [\<lparr>c_url = js ''u'', c_title = Some [], c_content = None\<rparr>]
   \<and> spec_keep_nonempty (Some []) (Some (js ''T'')) = Some (js ''T'')
   \<and> Some [] \<noteq> Some (js ''T'')"
  by (simp add: mergeSources_def seed_existing_def merge_incoming_def or_empty_def Map_values_def
      Map_get_def nullish_def spec_keep_nonempty_def js_def)

section \<open>Context builder\<close>

text \<open>
  Claim C4. \<open>buildContext\<close> keeps the user messages of the log, all of them and in their
  order, and of the assistant messages exactly those whose model and provider are the target
  ones. Hence the context built for a model holds no assistant message tagged with another
  model or provider.
\<close>

theorem buildContext_isolation:
  "filter (\<lambda>m. m_role m = User) (buildContext msgs modelId providerId)
     = filter (\<lambda>m. m_role m = User) msgs
   \<and> filter (\<lambda>m. m_role m = Assistant) (buildContext msgs modelId providerId)
     = filter (\<lambda>m. m_role m = Assistant \<and> m_modelId m = Some modelId
                      \<and> m_providerId m = Some providerId) msgs
   \<and> (m_role msg = Assistant \<longrightarrow>
        (msg \<in> set (buildContext msgs modelId providerId) \<longleftrightarrow>
           msg \<in> set msgs \<and> m_modelId msg = Some modelId \<and> m_providerId msg = Some providerId))
   \<and> (m_role msg = User \<longrightarrow> (msg \<in> set (buildContext msgs modelId providerId) \<longleftrightarrow> msg \<in> set msgs))
   \<and> ((modelB, providerB) \<noteq> (modelId, providerId) \<longrightarrow>
        filter (\<lambda>m. m_role m = Assistant \<and> m_modelId m = Some modelB \<and> m_providerId m = Some providerB)
          (buildContext msgs modelId providerId) = [])"
proof -
  have user: "filter (\<lambda>m. m_role m = User) (buildContext msgs modelId providerId)
     = filter (\<lambda>m. m_role m = User) msgs"
    unfolding buildContext_def filter_filter by (rule filter_cong) auto
  have assistant: "filter (\<lambda>m. m_role m = Assistant) (buildContext msgs modelId providerId)
     = filter (\<lambda>m. m_role m = Assistant \<and> m_modelId m = Some modelId
                      \<and> m_providerId m = Some providerId) msgs"
    unfolding buildContext_def filter_filter by (rule filter_cong) auto
  have other: "(modelB, providerB) \<noteq> (modelId, providerId) \<Longrightarrow>
        filter (\<lambda>m. m_role m = Assistant \<and> m_modelId m = Some modelB \<and> m_providerId m = Some providerB)
          (buildContext msgs modelId providerId) = []"
    unfolding buildContext_def filter_filter by (auto simp: filter_empty_conv)
  show ?thesis
    using user assistant other by (auto simp: buildContext_def)
qed

theorem buildContext_isolation_witness:
  "(js ''B'', Openai) \<noteq> (js ''A'', Openrouter)
   \<and> buildContext
        [\<lparr>m_id = js ''1'', m_role = User, m_content = js ''hi'', m_createdAt = 1, m_modelId = None,
          m_providerId = None, m_isStreaming = None, m_images = None, m_attachments = None,
          m_sources = None\<rparr>,
         \<lparr>m_id = js ''2'', m_role = Assistant, m_content = js ''a'', m_createdAt = 2,
          m_modelId = Some (js ''A''), m_providerId = Some Openrouter, m_isStreaming = Some False,
          m_images = None, m_attachments = None, m_sources = None\<rparr>,
         \<lparr>m_id = js ''3'', m_role = Assistant, m_content = js ''b'', m_createdAt = 3,
          m_modelId = Some (js ''B''), m_providerId = Some Openai, m_isStreaming = Some False,
          m_images = None, m_attachments = None, m_sources = None\<rparr>]
        (js ''A'') Openrouter
     = [\<lparr>m_id = js ''1'', m_role = User, m_content = js ''hi'', m_createdAt = 1, m_modelId = None,
          m_providerId = None, m_isStreaming = None, m_images = None, m_attachments = None,
          m_sources = None\<rparr>,
        \<lparr>m_id = js ''2'', m_role = Assistant, m_content = js ''a'', m_createdAt = 2,
          m_modelId = Some (js ''A''), m_providerId = Some Openrouter, m_isStreaming = Some False,
          m_images = None, m_attachments = None, m_sources = None\<rparr>]
   \<and> filter (\<lambda>m. m_role m = Assistant \<and> m_modelId m = Some (js ''B'') \<and> m_providerId m = Some Openai)
        (buildContext
          [\<lparr>m_id = js ''1'', m_role = User, m_content = js ''hi'', m_createdAt = 1, m_modelId = None,
            m_providerId = None, m_isStreaming = None, m_images = None, m_attachments = None,
            m_sources = None\<rparr>,
           \<lparr>m_id = js ''2'', m_role = Assistant, m_content = js ''a'', m_createdAt = 2,
            m_modelId = Some (js ''A''), m_providerId = Some Openrouter, m_isStreaming = Some False,
            m_images = None, m_attachments = None, m_sources = None\<rparr>,
           \<lparr>m_id = js ''3'', m_role = Assistant, m_content = js ''b'', m_createdAt = 3,
            m_modelId = Some (js ''B''), m_providerId = Some Openai, m_isStreaming = Some False,
            m_images = None, m_attachments = None, m_sources = None\<rparr>]
          (js ''A'') Openrouter) = []"
  using buildContext_isolation
    [of "[\<lparr>m_id = js ''1'', m_role = User, m_content = js ''hi'', m_createdAt = 1, m_modelId = None,
            m_providerId = None, m_isStreaming = None, m_images = None, m_attachments = None,
            m_sources = None\<rparr>,
           \<lparr>m_id = js ''2'', m_role = Assistant, m_content = js ''a'', m_createdAt = 2,
            m_modelId = Some (js ''A''), m_providerId = Some Openrouter, m_isStreaming = Some False,
            m_images = None, m_attachments = None, m_sources = None\<rparr>,
           \<lparr>m_id = js ''3'', m_role = Assistant, m_content = js ''b'', m_createdAt = 3,
            m_modelId = Some (js ''B''), m_providerId = Some Openai, m_isStreaming = Some False,
            m_images = None, m_attachments = None, m_sources = None\<rparr>]"
        "js ''A''" Openrouter
        "\<lparr>m_id = js ''3'', m_role = Assistant, m_content = js ''b'', m_createdAt = 3,
            m_modelId = Some (js ''B''), m_providerId = Some Openai, m_isStreaming = Some False,
            m_images = None, m_attachments = None, m_sources = None\<rparr>"
        "js ''B''" Openai]
  by (simp add: buildContext_def js_def)

section \<open>Citation extraction\<close>

lemma extract_annotation_url: "c \<in> set (extract_annotation a) \<Longrightarrow> c_url c \<noteq> []"
  by (auto simp: extract_annotation_def Let_def split: if_splits)

lemma extract_annotation_fields:
  "c \<in> set (extract_annotation a) \<Longrightarrow>
     c_title c = string_or_undefined (get_prop (citation_of a) (js ''title'')) \<and>
     c_content c = string_or_undefined (get_prop (citation_of a) (js ''content''))"
  by (auto simp: extract_annotation_def Let_def split: if_splits)

lemma extract_annotation_not_object: "\<forall>kvs. a \<noteq> JObj kvs \<Longrightarrow> extract_annotation a = []"
  by (cases a)
     (auto simp: extract_annotation_def Let_def citation_of_def get_prop_def coalesce_to_def
        truthy_def is_object_type_def)

lemma extract_annotation_no_url:
  "\<forall>s. get_prop (citation_of a) (js ''url'') \<noteq> Some (JStr s) \<Longrightarrow>
   \<forall>s. get_prop a (js ''url'') \<noteq> Some (JStr s) \<Longrightarrow> extract_annotation a = []"
  by (auto simp: extract_annotation_def Let_def split: option.splits json.splits)

lemma string_or_undefined_None:
  "\<forall>s. v \<noteq> Some (JStr s) \<Longrightarrow> string_or_undefined v = None"
  by (auto simp: string_or_undefined_def split: option.splits json.splits)

text \<open>
  Claim C10. Every citation that \<open>extractSources\<close> returns has a url that is not the empty
  string. An input that is no array gives nothing. An entry that is not an object, or one
  where neither the probed citation object (\<open>url_citation\<close>, else \<open>urlCitation\<close>, else the
  annotation itself) nor the annotation has a string \<open>url\<close>, adds nothing to the output. The
  title and the content of a citation are those of the probed object when they are strings,
  and absent otherwise.
\<close>

theorem extractSources_wellformed:
  "(c \<in> set (extractSources annotations) \<longrightarrow> c_url c \<noteq> [])
   \<and> ((\<forall>items. annotations \<noteq> JArr items) \<longrightarrow> extractSources annotations = [])
   \<and> ((\<forall>kvs. a \<noteq> JObj kvs) \<longrightarrow>
        extractSources (JArr (xs @ a # ys)) = extractSources (JArr (xs @ ys)))
   \<and> ((\<forall>s. get_prop (citation_of a) (js ''url'') \<noteq> Some (JStr s)) \<and>
       (\<forall>s. get_prop a (js ''url'') \<noteq> Some (JStr s)) \<longrightarrow>
        extractSources (JArr (xs @ a # ys)) = extractSources (JArr (xs @ ys)))
   \<and> (c \<in> set (extractSources (JArr [a])) \<longrightarrow>
        (get_prop (citation_of a) (js ''title'') = Some (JStr t) \<longrightarrow> c_title c = Some t) \<and>
        ((\<forall>s. get_prop (citation_of a) (js ''title'') \<noteq> Some (JStr s)) \<longrightarrow> c_title c = None) \<and>
        (get_prop (citation_of a) (js ''content'') = Some (JStr t) \<longrightarrow> c_content c = Some t) \<and>
        ((\<forall>s. get_prop (citation_of a) (js ''content'') \<noteq> Some (JStr s)) \<longrightarrow> c_content c = None))"
proof (intro conjI impI)
  assume "c \<in> set (extractSources annotations)"
  then show "c_url c \<noteq> []"
    by (auto simp: extractSources_def dest: extract_annotation_url split: json.splits)
next
  assume "\<forall>items. annotations \<noteq> JArr items"
  then show "extractSources annotations = []"
    by (cases annotations) (auto simp: extractSources_def)
next
  assume "\<forall>kvs. a \<noteq> JObj kvs"
  then show "extractSources (JArr (xs @ a # ys)) = extractSources (JArr (xs @ ys))"
    by (simp add: extractSources_def extract_annotation_not_object)
next
  assume "(\<forall>s. get_prop (citation_of a) (js ''url'') \<noteq> Some (JStr s)) \<and>
       (\<forall>s. get_prop a (js ''url'') \<noteq> Some (JStr s))"
  then show "extractSources (JArr (xs @ a # ys)) = extractSources (JArr (xs @ ys))"
    by (simp add: extractSources_def extract_annotation_no_url)
next
  assume "c \<in> set (extractSources (JArr [a]))"
    and "get_prop (citation_of a) (js ''title'') = Some (JStr t)"
  then show "c_title c = Some t"
    using extract_annotation_fields[of c a] by (simp add: extractSources_def string_or_undefined_def)
next
  assume "c \<in> set (extractSources (JArr [a]))"
    and "\<forall>s. get_prop (citation_of a) (js ''title'') \<noteq> Some (JStr s)"
  then show "c_title c = None"
    using extract_annotation_fields[of c a] by (simp add: extractSources_def string_or_undefined_None)
next
  assume "c \<in> set (extractSources (JArr [a]))"
    and "get_prop (citation_of a) (js ''content'') = Some (JStr t)"
  then show "c_content c = Some t"
    using extract_annotation_fields[of c a] by (simp add: extractSources_def string_or_undefined_def)
next
  assume "c \<in> set (extractSources (JArr [a]))"
    and "\<forall>s. get_prop (citation_of a) (js ''content'') \<noteq> Some (JStr s)"
  then show "c_content c = None"
    using extract_annotation_fields[of c a] by (simp add: extractSources_def string_or_undefined_None)
qed

theorem extractSources_wellformed_witness:
  "extractSources
     (JArr [JObj [(js ''url_citation'',
                   JObj [(js ''url'', JStr (js ''https://x.com'')), (js ''title'', JStr (js ''X''))])]])
     = [\<lparr>c_url = js ''https://x.com'', c_title = Some (js ''X''), c_content = None\<rparr>]
   \<and> c_url \<lparr>c_url = js ''https://x.com'', c_title = Some (js ''X''), c_content = None\<rparr> \<noteq> []
   \<and> extractSources JNull = []
   \<and> extractSources
        (JArr ([] @ JStr (js ''s'') #
               [JObj [(js ''url_citation'',
                       JObj [(js ''url'', JStr (js ''https://x.com'')), (js ''title'', JStr (js ''X''))])]]))
     = extractSources
        (JArr ([] @ [JObj [(js ''url_citation'',
                       JObj [(js ''url'', JStr (js ''https://x.com'')), (js ''title'', JStr (js ''X''))])]]))"
  using extractSources_wellformed
    [where c = "\<lparr>c_url = js ''https://x.com'', c_title = Some (js ''X''), c_content = None\<rparr>"
       and annotations = "JArr [JObj [(js ''url_citation'',
                   JObj [(js ''url'', JStr (js ''https://x.com'')), (js ''title'', JStr (js ''X''))])]]"
       and a = "JObj [(js ''url_citation'',
                   JObj [(js ''url'', JStr (js ''https://x.com'')), (js ''title'', JStr (js ''X''))])]"
       and xs = "[]" and ys = "[]" and t = "js ''X''"]
    extractSources_wellformed
    [where c = "\<lparr>c_url = js ''https://x.com'', c_title = Some (js ''X''), c_content = None\<rparr>"
       and annotations = JNull
       and a = "JStr (js ''s'')"
       and xs = "[]"
       and ys = "[JObj [(js ''url_citation'',
                   JObj [(js ''url'', JStr (js ''https://x.com'')), (js ''title'', JStr (js ''X''))])]]"
       and t = "js ''X''"]
  by (simp add: extractSources_def extract_annotation_def citation_of_def get_prop_def
      coalesce_to_def truthy_def is_object_type_def string_or_undefined_def js_def Let_def)


section \<open>Reading a response body\<close>

lemma decode_append:
  "decode st (a @ b) =
     (let (st1, out1) = decode st a; (st2, out2) = decode st1 b in (st2, out1 @ out2))"
  by (induction a arbitrary: st) (auto simp: Let_def split: prod.splits)

lemma take_append_le: "n \<le> length xs \<Longrightarrow> take n (xs @ t) = take n xs"
  by simp

lemma drop_append_le: "n \<le> length xs \<Longrightarrow> drop n (xs @ t) = drop n xs @ t"
  by simp

lemma js_split_nonempty: "js_split sep s \<noteq> []"
  by (induction sep s rule: js_split.induct) (auto simp: cons_hd_def split: list.splits)

lemma js_split_single: "js_split sep s = [x] \<Longrightarrow> x = s"
proof (induction sep s arbitrary: x rule: js_split.induct)
  case (1 sep)
  then show ?case by simp
next
  case (2 sep c cs)
  show ?case
  proof (cases "sep \<noteq> [] \<and> take (length sep) (c # cs) = sep")
    case True
    then show ?thesis using "2.prems" js_split_nonempty[of sep "drop (length sep) (c # cs)"] by simp
  next
    case False
    then have eq: "cons_hd c (js_split sep cs) = [x]" using "2.prems" by auto
    obtain seg rest where sr: "js_split sep cs = seg # rest"
      using js_split_nonempty[of sep cs] by (cases "js_split sep cs") auto
    with eq have "rest = []" "x = c # seg" by (auto simp: cons_hd_def)
    with sr "2.IH"(2)[OF False, of seg] show ?thesis by simp
  qed
qed

lemma js_split_short: "length s < length sep \<Longrightarrow> js_split sep s = [s]"
proof (induction sep s rule: js_split.induct)
  case (1 sep)
  then show ?case by simp
next
  case (2 sep c cs)
  have nm: "\<not> (sep \<noteq> [] \<and> take (length sep) (c # cs) = sep)"
  proof
    assume "sep \<noteq> [] \<and> take (length sep) (c # cs) = sep"
    then have "length (take (length sep) (c # cs)) = length sep" by simp
    then show False using "2.prems" by simp
  qed
  have "length cs < length sep" using "2.prems" by simp
  from "2.IH"(2)[OF nm this] nm show ?case by (auto simp: cons_hd_def)
qed

lemma js_split_append:
  "js_split sep (s @ t) = butlast (js_split sep s) @ js_split sep (last (js_split sep s) @ t)"
proof (induction sep s rule: js_split.induct)
  case (1 sep)
  then show ?case by simp
next
  case (2 sep c cs)
  show ?case
  proof (cases "sep \<noteq> [] \<and> take (length sep) (c # cs) = sep")
    case True
    then have "length (take (length sep) (c # cs)) = length sep" by simp
    then have len: "length sep \<le> length (c # cs)" by simp
    have m2: "take (length sep) ((c # cs) @ t) = sep"
      using True take_append_le[OF len, of t] by metis
    have d2: "drop (length sep) ((c # cs) @ t) = drop (length sep) (c # cs) @ t"
      by (rule drop_append_le[OF len])
    have "js_split sep ((c # cs) @ t) = [] # js_split sep (drop (length sep) (c # cs) @ t)"
      using True m2 d2 by (metis append_Cons js_split.simps(2))
    also have "\<dots> = [] # (butlast (js_split sep (drop (length sep) (c # cs)))
                        @ js_split sep (last (js_split sep (drop (length sep) (c # cs))) @ t))"
      using "2.IH"(1)[OF True] by simp
    finally show ?thesis using True js_split_nonempty[of sep "drop (length sep) (c # cs)"]
      by simp
  next
    case False
    note nomatch = False
    show ?thesis
    proof (cases "sep \<noteq> [] \<and> take (length sep) ((c # cs) @ t) = sep")
      case True
      have short: "length (c # cs) < length sep"
      proof (rule ccontr)
        assume "\<not> length (c # cs) < length sep"
        then have "length sep \<le> length (c # cs)" by simp
        from take_append_le[OF this, of t] True nomatch show False by metis
      qed
      from js_split_short[OF this] show ?thesis by simp
    next
      case False
      obtain seg rest where sr: "js_split sep cs = seg # rest"
        using js_split_nonempty[of sep cs] by (cases "js_split sep cs") auto
      have lhs: "js_split sep ((c # cs) @ t) = cons_hd c (js_split sep (cs @ t))"
        using False by auto
      have ih: "js_split sep (cs @ t) = butlast (js_split sep cs) @ js_split sep (last (js_split sep cs) @ t)"
        using "2.IH"(2)[OF nomatch] .
      show ?thesis
      proof (cases rest)
        case Nil
        then have "seg = cs" using sr js_split_single by blast
        then show ?thesis using nomatch lhs sr Nil False by (auto simp: cons_hd_def)
      next
        case (Cons r rs)
        then show ?thesis using nomatch lhs ih sr by (auto simp: cons_hd_def)
      qed
    qed
  qed
qed


lemma js_split_carry: "js_split sep (last (js_split sep s)) = [last (js_split sep s)]"
proof -
  have "butlast (js_split sep s) @ [last (js_split sep s)] = js_split sep s"
    using js_split_nonempty by simp
  also have "\<dots> = butlast (js_split sep s) @ js_split sep (last (js_split sep s))"
    using js_split_append[of sep s "[]"] by simp
  finally show ?thesis by simp
qed

lemma pop_js_split:
  "pop (js_split sep s) = (Some (last (js_split sep s)), butlast (js_split sep s))"
  by (simp add: pop_def js_split_nonempty)

lemma for_parts_append:
  "for_parts body (ps @ qs) =
     (if snd (for_parts body ps) then for_parts body ps
      else (fst (for_parts body ps) @ fst (for_parts body qs), snd (for_parts body qs)))"
  by (induction ps) (auto split: PartResult.splits prod.splits)

lemma read_loop_whole:
  "js_split [0x0A, 0x0A] buffer = [buffer] \<Longrightarrow>
   read_loop body decoder buffer chunks =
     fst (for_parts body
            (butlast (js_split [0x0A, 0x0A] (buffer @ snd (decode decoder (concat chunks))))))"
proof (induction chunks arbitrary: decoder buffer)
  case Nil
  then show ?case by simp
next
  case (Cons v chunks)
  obtain d1 tx where d1: "decode decoder v = (d1, tx)" by (cases "decode decoder v")
  obtain d2 tx2 where d2: "decode d1 (concat chunks) = (d2, tx2)"
    by (cases "decode d1 (concat chunks)")
  let ?sp = "js_split [0x0A, 0x0A] (buffer @ tx)"
  let ?carry = "last ?sp"
  let ?parts = "butlast ?sp"
  have whole: "snd (decode decoder (concat (v # chunks))) = tx @ tx2"
    using d1 d2 by (simp add: decode_append)
  have sp: "js_split [0x0A, 0x0A] (buffer @ tx @ tx2)
              = ?parts @ js_split [0x0A, 0x0A] (?carry @ tx2)"
    using js_split_append[of "[0x0A, 0x0A]" "buffer @ tx" tx2] by simp
  have bl: "butlast (js_split [0x0A, 0x0A] (buffer @ tx @ tx2))
              = ?parts @ butlast (js_split [0x0A, 0x0A] (?carry @ tx2))"
    unfolding sp using js_split_nonempty by (simp add: butlast_append)
  have ih: "read_loop body d1 ?carry chunks =
              fst (for_parts body (butlast (js_split [0x0A, 0x0A] (?carry @ tx2))))"
    using Cons.IH[OF js_split_carry, of d1] d2 by simp
  have step: "read_loop body decoder buffer (v # chunks) =
      (if snd (for_parts body ?parts) then fst (for_parts body ?parts)
       else fst (for_parts body ?parts) @ read_loop body d1 ?carry chunks)"
    using d1 by (simp add: pop_js_split split: prod.splits)
  show ?case
    unfolding step whole bl for_parts_append ih by simp
qed

lemma read_loop_chunks:
  "concat chunks1 = concat chunks2 \<Longrightarrow>
   read_loop body utf8_init [] chunks1 = read_loop body utf8_init [] chunks2"
  by (simp add: read_loop_whole)

lemma for_parts_until_return:
  "\<forall>p \<in> set before. body p \<noteq> Return \<Longrightarrow> body sentinel = Return \<Longrightarrow>
   for_parts body (before @ sentinel # after) = (concat (map (\<lambda>p. part_events (body p)) before), True)"
  by (induction before) (auto simp: part_events_def split: PartResult.splits prod.splits)

lemma for_parts_skip:
  "body part = Continue [] \<Longrightarrow>
   for_parts body (before @ part # after) = for_parts body (before @ after)"
  by (induction before) (auto split: PartResult.splits prod.splits)


lemma read_loop_frames:
  "read_loop body utf8_init [] chunks = fst (for_parts body (stream_frames (concat chunks)))"
  by (simp add: read_loop_whole stream_frames_def)

text \<open>
  Claim C5. The frames the loop handles are those of the whole body, whatever its chunks: the
  decoded text split at the blank lines, without the last segment. So two ways of cutting
  the same bytes into chunks give the same calls in the same order, in each of the three
  adapters and for any loop body, also where a chunk ends inside a character or inside the
  blank line.
\<close>

theorem chunk_boundary_independence:
  "concat chunks1 = concat chunks2 \<Longrightarrow>
     read_loop body utf8_init [] chunks1 = fst (for_parts body (stream_frames (concat chunks2)))
     \<and> read_loop body utf8_init [] chunks1 = read_loop body utf8_init [] chunks2
     \<and> read_openai parse onAnnotations onImage chunks1
         = read_openai parse onAnnotations onImage chunks2
     \<and> read_anthropic parse chunks1 = read_anthropic parse chunks2
     \<and> read_google parse chunks1 = read_google parse chunks2"
  by (simp add: read_openai_def read_anthropic_def read_google_def read_loop_frames)


lemmas eval_simps = read_openai_def read_anthropic_def read_google_def openai_part_def
  anthropic_part_def google_part_def data_of_part_def data_of_event_def
  trim_def startsWith_def replace_data_prefix_def is_space_def pop_def cons_hd_def
  utf8_init_def utf8_step_def utf8_lead_def emit_def utf8_reset_def utf16_def
  try_parse_def example_parse_def openai_json_events_def anthropic_json_events_def
  google_json_events_def call_if_truthy_def truthy_def get_prop_def opt_prop_def index0_def
  opt_index0_def coalesce_def image_events_def js_def Let_def

theorem chunk_boundary_independence_witness:
  \<open>concat [map of_char ''data: "H'' @ [0xC3],
           [0xA9, 0x0A, 0x0A] @ map of_char ''data: [DONE]'' @ [0x0A],
           [0x0A :: byte]]
     = concat [map of_char ''data: "H'' @ [0xC3, 0xA9, 0x0A], [],
               [0x0A] @ map of_char ''data: [DONE]'' @ [0x0A, 0x0A :: byte]]
   \<and> read_openai example_parse True True
        [map of_char ''data: "H'' @ [0xC3],
         [0xA9, 0x0A, 0x0A] @ map of_char ''data: [DONE]'' @ [0x0A],
         [0x0A]]
     = [OnToken (JStr [0x48, 0xE9])]
   \<and> read_openai example_parse True True
        [map of_char ''data: "H'' @ [0xC3, 0xA9, 0x0A], [],
         [0x0A] @ map of_char ''data: [DONE]'' @ [0x0A, 0x0A]]
     = [OnToken (JStr [0x48, 0xE9])]\<close>
  using chunk_boundary_independence
    [of \<open>[map of_char ''data: "H'' @ [0xC3],
          [0xA9, 0x0A, 0x0A] @ map of_char ''data: [DONE]'' @ [0x0A],
          [0x0A]]\<close>
        \<open>[map of_char ''data: "H'' @ [0xC3, 0xA9, 0x0A], [],
          [0x0A] @ map of_char ''data: [DONE]'' @ [0x0A, 0x0A]]\<close>
        "openai_part example_parse True True" example_parse True True]
  by (simp add: eval_simps)

text \<open>
  Claim C6. In the loop of \<open>streamOpenAICompatible\<close> the function returns at a frame exactly
  when the payload of the frame is \<open>[DONE]\<close>. When the frames that a chunk completes hold
  such a frame, the calls made from this chunk on are those of the frames before the first
  such frame: the frame itself makes no call, and neither the frames after it nor the chunks
  after this one are looked at.
\<close>

theorem done_sentinel_returns:
  "(openai_part parse onAnnotations onImage part = Return
      \<longleftrightarrow> data_of_part part = Some (js ''[DONE]''))
   \<and> (pop (js_split [0x0A, 0x0A] (buffer @ snd (decode decoder chunk)))
         = (carry, before @ sentinel # after)
       \<and> data_of_part sentinel = Some (js ''[DONE]'')
       \<and> (\<forall>p \<in> set before. data_of_part p \<noteq> Some (js ''[DONE]''))
       \<longrightarrow> read_loop (openai_part parse onAnnotations onImage) decoder buffer (chunk # chunks)
             = concat (map (\<lambda>p. part_events (openai_part parse onAnnotations onImage p)) before))"
proof -
  have ret: "\<And>p. openai_part parse onAnnotations onImage p = Return
      \<longleftrightarrow> data_of_part p = Some (js ''[DONE]'')"
    by (auto simp: openai_part_def split: option.splits)
  have loop: "read_loop (openai_part parse onAnnotations onImage) decoder buffer (chunk # chunks)
             = concat (map (\<lambda>p. part_events (openai_part parse onAnnotations onImage p)) before)"
    if p: "pop (js_split [0x0A, 0x0A] (buffer @ snd (decode decoder chunk)))
         = (carry, before @ sentinel # after)"
      and s: "data_of_part sentinel = Some (js ''[DONE]'')"
      and b: "\<forall>p \<in> set before. data_of_part p \<noteq> Some (js ''[DONE]'')"
  proof -
    have "for_parts (openai_part parse onAnnotations onImage) (before @ sentinel # after)
            = (concat (map (\<lambda>p. part_events (openai_part parse onAnnotations onImage p)) before), True)"
      by (rule for_parts_until_return) (use s b ret in auto)
    moreover obtain d tx where d: "decode decoder chunk = (d, tx)" by (cases "decode decoder chunk")
    ultimately show ?thesis using p by simp
  qed
  show ?thesis using ret loop by blast
qed

theorem done_sentinel_returns_witness:
  \<open>read_loop (openai_part example_parse True True) utf8_init []
     [map of_char ''data: "A'' @ [0x0A, 0x0A] @ map of_char ''data: [DONE]'' @ [0x0A, 0x0A]
        @ map of_char ''data: "B'' @ [0x0A, 0x0A],
      map of_char ''data: "C'' @ [0x0A, 0x0A]]
   = [OnToken (JStr (js ''A''))]
   \<and> openai_part example_parse True True (js ''data: [DONE]'') = Return\<close>
  using done_sentinel_returns
    [where parse = example_parse and onAnnotations = True and onImage = True
       and part = \<open>js ''data: [DONE]''\<close>
       and buffer = "[]" and decoder = utf8_init
       and chunk = \<open>map of_char ''data: "A'' @ [0x0A, 0x0A] @ map of_char ''data: [DONE]''
                      @ [0x0A, 0x0A] @ map of_char ''data: "B'' @ [0x0A, 0x0A]\<close>
       and carry = "Some []"
       and before = \<open>[js ''data: "A'']\<close>
       and sentinel = \<open>js ''data: [DONE]''\<close>
       and after = \<open>[js ''data: "B'']\<close>
       and chunks = \<open>[map of_char ''data: "C'' @ [0x0A, 0x0A]]\<close>]
  by (simp add: eval_simps part_events_def)

text \<open>
  Claim C7. A frame whose payload \<open>JSON.parse\<close> rejects makes no call and does not end the
  loop over the frames: the loop goes on as if the frame were not there. This holds in the
  loop of each of the three adapters. (In \<open>streamOpenAICompatible\<close> the payload \<open>[DONE]\<close>
  never reaches \<open>JSON.parse\<close>.)
\<close>

theorem parse_failure_skipped:
  "(data_of_part part = Some data \<and> data \<noteq> js ''[DONE]'' \<and> parse data = None \<longrightarrow>
      openai_part parse onAnnotations onImage part = Continue [] \<and>
      for_parts (openai_part parse onAnnotations onImage) (before @ part # after)
        = for_parts (openai_part parse onAnnotations onImage) (before @ after))
   \<and> (data_of_event part = Some data \<and> parse data = None \<longrightarrow>
      anthropic_part parse part = Continue [] \<and>
      for_parts (anthropic_part parse) (before @ part # after)
        = for_parts (anthropic_part parse) (before @ after))
   \<and> (data_of_part part = Some data \<and> parse data = None \<longrightarrow>
      google_part parse part = Continue [] \<and>
      for_parts (google_part parse) (before @ part # after)
        = for_parts (google_part parse) (before @ after))"
proof (intro conjI impI)
  assume a: "data_of_part part = Some data \<and> data \<noteq> js ''[DONE]'' \<and> parse data = None"
  then show c: "openai_part parse onAnnotations onImage part = Continue []"
    by (simp add: openai_part_def try_parse_def)
  show "for_parts (openai_part parse onAnnotations onImage) (before @ part # after)
        = for_parts (openai_part parse onAnnotations onImage) (before @ after)"
    using c by (rule for_parts_skip)
next
  assume a: "data_of_event part = Some data \<and> parse data = None"
  then show c: "anthropic_part parse part = Continue []"
    by (simp add: anthropic_part_def try_parse_def)
  show "for_parts (anthropic_part parse) (before @ part # after)
        = for_parts (anthropic_part parse) (before @ after)"
    using c by (rule for_parts_skip)
next
  assume a: "data_of_part part = Some data \<and> parse data = None"
  then show c: "google_part parse part = Continue []"
    by (simp add: google_part_def try_parse_def)
  show "for_parts (google_part parse) (before @ part # after)
        = for_parts (google_part parse) (before @ after)"
    using c by (rule for_parts_skip)
qed

theorem parse_failure_skipped_witness:
  \<open>for_parts (openai_part example_parse True True) ([js ''data: "A''] @ js ''data: {oops'' # [js ''data: "B''])
     = ([OnToken (JStr (js ''A'')), OnToken (JStr (js ''B''))], False)
   \<and> for_parts (anthropic_part example_parse) ([js ''data: "A''] @ js ''data: {oops'' # [js ''data: "B''])
     = for_parts (anthropic_part example_parse) ([js ''data: "A''] @ [js ''data: "B''])
   \<and> for_parts (google_part example_parse) ([js ''data: "A''] @ js ''data: {oops'' # [js ''data: "B''])
     = for_parts (google_part example_parse) ([js ''data: "A''] @ [js ''data: "B''])
   \<and> data_of_part (js ''data: {oops'') = Some (js ''{oops'')
   \<and> data_of_event (js ''data: {oops'') = Some (js ''{oops'')
   \<and> example_parse (js ''{oops'') = None\<close>
  using parse_failure_skipped
    [where parse = example_parse and onAnnotations = True and onImage = True
       and part = \<open>js ''data: {oops''\<close> and data = \<open>js ''{oops''\<close>
       and before = \<open>[js ''data: "A'']\<close> and after = \<open>[js ''data: "B'']\<close>]
  by (simp add: eval_simps)


section \<open>Dispatch to the adapters\<close>

text \<open>
  Claim C8. With an empty API key \<open>streamProviderResponse\<close> throws at once: no adapter is
  called, no request is sent and no callback is called, whatever the platform would answer.
  With a key that is not empty it is the call of the adapter of the provider's family in the
  table \<open>PROVIDERS\<close>, with the options handed on; the adapters of the Anthropic and Google
  families then send exactly one request.
\<close>

theorem streamProviderResponse_dispatch:
  "(sp_apiKey options = [] \<longrightarrow>
      streamProviderResponse P options
        = \<lparr>o_requests = [], o_events = [],
           o_thrown = Some (JsError (js ''Missing API key for provider.''))\<rparr>)
   \<and> (sp_apiKey options \<noteq> [] \<and> provider_type (sp_providerId options) = TypeOpenai \<longrightarrow>
      streamProviderResponse P options
        = streamOpenAICompatible P
            \<lparr>oa_apiKey = sp_apiKey options,
             oa_baseUrl = provider_baseUrl (sp_providerId options),
             oa_model = sp_model options,
             oa_messages = sp_messages options,
             oa_systemPrompt = sp_systemPrompt options,
             oa_onImage = sp_onImage options,
             oa_onAnnotations = sp_onAnnotations options,
             oa_supportsImages = sp_supportsImages options,
             oa_plugins = sp_plugins options\<rparr>)
   \<and> (sp_apiKey options \<noteq> [] \<and> provider_type (sp_providerId options) = TypeAnthropic \<longrightarrow>
      streamProviderResponse P options
        = streamAnthropic P
            \<lparr>an_apiKey = sp_apiKey options,
             an_model = sp_model options,
             an_messages = sp_messages options,
             an_systemPrompt = sp_systemPrompt options\<rparr>
      \<and> length (o_requests (streamProviderResponse P options)) = 1)
   \<and> (sp_apiKey options \<noteq> [] \<and> provider_type (sp_providerId options) = TypeGoogle \<longrightarrow>
      streamProviderResponse P options
        = streamGoogle P
            \<lparr>g_apiKey = sp_apiKey options,
             g_model = sp_model options,
             g_messages = sp_messages options,
             g_systemPrompt = sp_systemPrompt options\<rparr>
      \<and> length (o_requests (streamProviderResponse P options)) = 1)"
proof -
  have one: "length (o_requests (after_fetch P request reader)) = 1" for request reader
    by (simp add: after_fetch_def split: sum.splits option.splits)
  show ?thesis
    by (simp add: streamProviderResponse_def streamAnthropic_def streamGoogle_def one Let_def)
qed

theorem streamProviderResponse_dispatch_witness:
  "streamProviderResponse example_platform (example_options Openrouter [])
     = \<lparr>o_requests = [], o_events = [],
        o_thrown = Some (JsError (js ''Missing API key for provider.''))\<rparr>
   \<and> map rq_url (o_requests (streamProviderResponse example_platform (example_options Deepseek (js ''k''))))
     = [js ''https://api.deepseek.com/v1/chat/completions'']
   \<and> map rq_url (o_requests (streamProviderResponse example_platform (example_options Anthropic (js ''k''))))
     = [js ''https://api.anthropic.com/v1/messages'']
   \<and> map rq_url (o_requests (streamProviderResponse example_platform (example_options Google (js ''k''))))
     = [js ''https://generativelanguage.googleapis.com/v1beta/models/m:streamGenerateContent?alt=sse&key=k'']"
  using streamProviderResponse_dispatch[of "example_options Openrouter []" example_platform]
    streamProviderResponse_dispatch[of "example_options Deepseek (js ''k'')" example_platform]
    streamProviderResponse_dispatch[of "example_options Anthropic (js ''k'')" example_platform]
    streamProviderResponse_dispatch[of "example_options Google (js ''k'')" example_platform]
  by (simp add: example_options_def example_platform_def streamOpenAICompatible_def
      streamAnthropic_def streamGoogle_def after_fetch_def truthy_string_def or_empty_def
      js_def Let_def)

section \<open>Stopping a turn\<close>

lemma list_all2_map_same:
  "list_all2 R xs (map f xs) \<longleftrightarrow> (\<forall>x \<in> set xs. R x (f x))"
  by (simp add: list_all2_map2 list_all2_same)

text \<open>
  Claim C9. The stop operation calls \<open>abort\<close> on every controller of the registry and
  empties the registry. In every conversation with the active id, a message that was
  streaming differs from before in \<open>isStreaming\<close> only, which is now false, and any other
  message is unchanged; so content, images, sources, role, model and provider of every
  message are as before. The other conversations are unchanged. A task that ends with an
  abort error leaves the content of every message as it was and clears the streaming flag of
  its own message only.
\<close>

theorem stopStreaming_effect:
  "abortControllers (stopStreaming now s) = []
   \<and> aborted (stopStreaming now s) = aborted s \<union> snd ` set (abortControllers s)
   \<and> activeConversationId (stopStreaming now s) = activeConversationId s
   \<and> list_all2
        (\<lambda>c c'. cv_id c' = cv_id c \<and>
           (if Some (cv_id c) = activeConversationId s
            then list_all2
                   (\<lambda>m m'. (if m_isStreaming m = Some True
                              then m' = m\<lparr>m_isStreaming := Some False\<rparr> else m' = m)
                      \<and> m_content m' = m_content m \<and> m_images m' = m_images m
                      \<and> m_sources m' = m_sources m \<and> m_role m' = m_role m
                      \<and> m_modelId m' = m_modelId m \<and> m_providerId m' = m_providerId m)
                   (cv_messages c) (cv_messages c')
            else c' = c))
        (conversations s) (conversations (stopStreaming now s))
   \<and> (is_abort_error error \<longrightarrow>
        list_all2
          (\<lambda>c c'. cv_id c' = cv_id c \<and>
             list_all2
               (\<lambda>m m'. m_content m' = m_content m \<and>
                  m' = (if cv_id c = conversationId \<and> m_id m = assistantId
                        then m\<lparr>m_isStreaming := Some False\<rparr> else m))
               (cv_messages c) (cv_messages c'))
          (conversations s) (conversations (task_catch error conversationId assistantId now s)))"
proof (intro conjI impI)
  show "abortControllers (stopStreaming now s) = []"
    by (simp add: stopStreaming_def updateConversation_def Let_def split: option.splits)
  show "aborted (stopStreaming now s) = aborted s \<union> snd ` set (abortControllers s)"
    by (simp add: stopStreaming_def updateConversation_def Let_def split: option.splits)
  show "activeConversationId (stopStreaming now s) = activeConversationId s"
    by (simp add: stopStreaming_def updateConversation_def Let_def split: option.splits)
  show "list_all2
        (\<lambda>c c'. cv_id c' = cv_id c \<and>
           (if Some (cv_id c) = activeConversationId s
            then list_all2
                   (\<lambda>m m'. (if m_isStreaming m = Some True
                              then m' = m\<lparr>m_isStreaming := Some False\<rparr> else m' = m)
                      \<and> m_content m' = m_content m \<and> m_images m' = m_images m
                      \<and> m_sources m' = m_sources m \<and> m_role m' = m_role m
                      \<and> m_modelId m' = m_modelId m \<and> m_providerId m' = m_providerId m)
                   (cv_messages c) (cv_messages c')
            else c' = c))
        (conversations s) (conversations (stopStreaming now s))"
  proof (cases "activeConversation s")
    case None
    then have "\<forall>c \<in> set (conversations s). Some (cv_id c) \<noteq> activeConversationId s"
      by (auto simp: activeConversation_def find_None_iff)
    then show ?thesis using None
      by (simp add: stopStreaming_def Let_def list_all2_same)
  next
    case (Some active)
    then have "Some (cv_id active) = activeConversationId s"
      by (auto simp: activeConversation_def find_Some_iff)
    then have eq: "\<And>c. (cv_id c = cv_id active) = (Some (cv_id c) = activeConversationId s)"
      by (metis option.inject)
    show ?thesis using Some
      by (simp add: stopStreaming_def updateConversation_def Let_def list_all2_map_same eq)
  qed
next
  assume "is_abort_error error"
  then show "list_all2
          (\<lambda>c c'. cv_id c' = cv_id c \<and>
             list_all2
               (\<lambda>m m'. m_content m' = m_content m \<and>
                  m' = (if cv_id c = conversationId \<and> m_id m = assistantId
                        then m\<lparr>m_isStreaming := Some False\<rparr> else m))
               (cv_messages c) (cv_messages c'))
          (conversations s) (conversations (task_catch error conversationId assistantId now s))"
    by (simp add: task_catch_def updateConversation_def Let_def list_all2_map_same list_all2_same)
qed

theorem stopStreaming_effect_witness:
  "conversations (stopStreaming 5 example_state)
     = [\<lparr>cv_id = js ''c1'', cv_title = js ''t'',
          cv_messages = [example_message (js ''m1'') (js ''par'') (Some False),
                         example_message (js ''m2'') (js ''done'') (Some False)],
          cv_updatedAt = 5, cv_projectId = None\<rparr>,
         \<lparr>cv_id = js ''c2'', cv_title = js ''u'',
          cv_messages = [example_message (js ''m3'') (js ''x'') (Some True)],
          cv_updatedAt = 0, cv_projectId = None\<rparr>]
   \<and> abortControllers (stopStreaming 5 example_state) = []
   \<and> aborted (stopStreaming 5 example_state) = {7}
   \<and> is_abort_error (DOMException (js ''AbortError'') (js ''The user aborted a request.''))
   \<and> map (map m_content \<circ> cv_messages)
        (conversations (task_catch (DOMException (js ''AbortError'') (js ''The user aborted a request.''))
                          (js ''c1'') (js ''m1'') 5 example_state))
     = [[js ''par'', js ''done''], [js ''x'']]"
  using stopStreaming_effect
    [where now = 5 and s = example_state
       and error = "DOMException (js ''AbortError'') (js ''The user aborted a request.'')"
       and conversationId = "js ''c1''" and assistantId = "js ''m1''"]
  by (simp add: stopStreaming_def task_catch_def updateConversation_def activeConversation_def
      example_state_def example_message_def is_abort_error_def Map_delete_def js_def Let_def)

end
